theory Spec2Isabelle
  imports Complex_Main "HOL-Library.Multiset" "HOL-Library.AList" "HOL-Library.Option_ord"
begin

section \<open>Python values and built-ins used by the handlers\<close>

text \<open>
  Strings are lists of characters with code points below 256; the built-ins below are
  written for that range.  Exceptions are values of the type \<open>error\<close>; the message an
  exception carries is not modelled.  \<open>ElasticsearchError\<close> and \<open>APIError\<close> are the classes
  of \<^verbatim>\<open>exceptions.py\<close>, the others are Python's own.
\<close>

datatype error =
    TypeError | ValueError | AttributeError | KeyError | ZeroDivisionError
  | ElasticsearchError | APIError

text \<open>A value of a decoded JSON document of the backend: null, an integer or a string.\<close>

datatype jval = JNull | JInt int | JStr string

text \<open>
  A value of the parameter dictionary: the request gives a string or a list of strings for
  each key; \<open>process\<close> stores integers and \<open>None\<close> there as well.
\<close>

datatype pval = PNone | PInt int | PStr string | PList "string list"

text \<open>
  \<open>str.lower()\<close> on one character: the upper-case letters are the code points 65 to 90
  and 192 to 222 without 215; the lower-case letter is 32 higher, which sets bit 5.
\<close>

definition lower_char :: "char \<Rightarrow> char" where
  "lower_char c =
     (let k = (of_char c :: nat)
      in if (65 \<le> k \<and> k \<le> 90) \<or> (192 \<le> k \<and> k \<le> 222 \<and> k \<noteq> 215)
         then (case c of Char b0 b1 b2 b3 b4 b5 b6 b7 \<Rightarrow> Char b0 b1 b2 b3 b4 True b6 b7)
         else c)"

definition lower :: "string \<Rightarrow> string" where
  "lower s = map lower_char s"

text \<open>The characters \<open>int()\<close> strips from both ends of its argument.\<close>

definition int_space :: "char \<Rightarrow> bool" where
  "int_space c = ((of_char c :: nat) \<in> {9, 10, 11, 12, 13, 32, 133, 160})"

definition strip_int :: "string \<Rightarrow> string" where
  "strip_int s = rev (dropWhile int_space (rev (dropWhile int_space s)))"

definition digit_val :: "char \<Rightarrow> nat option" where
  "digit_val c =
     (let k = (of_char c :: nat)
      in if 48 \<le> k \<and> k \<le> 57 then Some (k - 48)
         else if 97 \<le> k \<and> k \<le> 122 then Some (k - 87)
         else if 65 \<le> k \<and> k \<le> 90 then Some (k - 55)
         else None)"

text \<open>
  The digits of an integer literal in base \<open>b\<close>: at least one digit, a single underscore
  allowed between two digits.  The flag says that the previous character was a digit.
\<close>

fun parse_digits :: "nat \<Rightarrow> bool \<Rightarrow> nat \<Rightarrow> string \<Rightarrow> nat option" where
  "parse_digits b prev acc [] = (if prev then Some acc else None)"
| "parse_digits b prev acc (c # cs) =
     (if c = CHR ''_'' then (if prev then parse_digits b False acc cs else None)
      else (case digit_val c of
              None \<Rightarrow> None
            | Some d \<Rightarrow> if d < b then parse_digits b True (acc * b + d) cs else None))"

text \<open>
  The limit of \<open>int()\<close> on the number of digits of its argument
  (\<open>sys.get_int_max_str_digits()\<close>, 4300 unless the interpreter is configured otherwise):
  for a base that is not a power of two, a string with more digits raises ValueError.
  The sign, the white space around the number and the underscores do not count; leading
  zeros do.  \<open>json.loads\<close> is under the same limit, so no integer of a decoded document
  has more digits.
\<close>

definition int_max_str_digits :: nat where
  "int_max_str_digits = 4300"

text \<open>\<open>int(s, b)\<close> on a string, for the bases 10 and 36 the handlers use; \<open>None\<close> is ValueError.\<close>

definition int_of_string :: "nat \<Rightarrow> string \<Rightarrow> int option" where
  "int_of_string b s =
     (case strip_int s of
        [] \<Rightarrow> None
      | c # cs \<Rightarrow>
          if int_max_str_digits
               < length (filter (\<lambda>d. d \<noteq> CHR ''_'')
                           (if c = CHR ''-'' \<or> c = CHR ''+'' then cs else c # cs))
          then None
          else if c = CHR ''-'' then map_option (\<lambda>n. - int n) (parse_digits b False 0 cs)
          else if c = CHR ''+'' then map_option int (parse_digits b False 0 cs)
          else map_option int (parse_digits b False 0 (c # cs)))"

text \<open>\<open>int(v)\<close> on a parameter value and on a JSON value.\<close>

definition int_of_pval :: "pval \<Rightarrow> error + int" where
  "int_of_pval v =
     (case v of
        PInt n \<Rightarrow> Inr n
      | PStr s \<Rightarrow> (case int_of_string 10 s of None \<Rightarrow> Inl ValueError | Some n \<Rightarrow> Inr n)
      | _ \<Rightarrow> Inl TypeError)"

definition int_of_jval :: "jval \<Rightarrow> error + int" where
  "int_of_jval v =
     (case v of
        JInt n \<Rightarrow> Inr n
      | JStr s \<Rightarrow> (case int_of_string 10 s of None \<Rightarrow> Inl ValueError | Some n \<Rightarrow> Inr n)
      | JNull \<Rightarrow> Inl TypeError)"

section \<open>Helpers.py: the identifier codec\<close>

text \<open>\<open>looks_like_int\<close>: \<open>int(value)\<close> succeeds; ValueError and TypeError are caught.\<close>

definition looks_like_int :: "pval \<Rightarrow> bool" where
  "looks_like_int v = (case int_of_pval v of Inr _ \<Rightarrow> True | Inl _ \<Rightarrow> False)"

definition alphabet :: string where
  "alphabet = ''0123456789abcdefghijklmnopqrstuvwxyz''"

text \<open>The \<open>while number != 0\<close> loop of \<open>base36encode\<close>; it runs on a number that is not negative.\<close>

function encode_loop :: "nat \<Rightarrow> string \<Rightarrow> string" where
  "encode_loop number base36 =
     (if number \<noteq> 0
      then encode_loop (number div length alphabet)
             (alphabet ! (number mod length alphabet) # base36)
      else base36)"
  by pat_completeness auto
termination
  by (relation "measure fst") (auto simp: alphabet_def)

declare encode_loop.simps [simp del]

text \<open>
  \<open>base36encode\<close> with the default alphabet (no caller passes another one).  An argument that
  is not an integer raises TypeError; a negative one is encoded with a leading minus sign.
\<close>

definition base36encode :: "jval \<Rightarrow> error + string" where
  "base36encode v =
     (case v of
        JInt n \<Rightarrow>
          (let sign = (if n < 0 then ''-'' else '''');
               number = (if n < 0 then - n else n)
           in if 0 \<le> number \<and> number < int (length alphabet)
              then Inr (sign @ [alphabet ! nat number])
              else Inr (sign @ encode_loop (nat number) ''''))
      | _ \<Rightarrow> Inl TypeError)"

text \<open>\<open>base36decode\<close>: \<open>int(number, 36)\<close>.\<close>

definition base36decode :: "string \<Rightarrow> error + int" where
  "base36decode number =
     (case int_of_string 36 number of None \<Rightarrow> Inl ValueError | Some n \<Rightarrow> Inr n)"

section \<open>Parameters.py: parameter normalisation\<close>

text \<open>
  The request's parameters are a dictionary, given as the list of its items (distinct keys,
  in iteration order); the processed parameters are a map.  The query document that
  \<open>process\<close> fills is a record of the keys the handlers write: \<open>query.bool.filter\<close>,
  \<open>size\<close>, \<open>sort\<close> and \<open>aggs\<close>.
\<close>

type_synonym raw_params = "(string \<times> pval) list"
type_synonym params = "string \<rightharpoonup> pval"

datatype pred =
    Terms string "string list"
  | Term string pval
  | RangeGt string int
  | RangeLt string int
  | SimpleQueryString pval "string list option"
  | EmptyPred

datatype agg_spec =
    SignificantTerms string int string string pval
  | TermsAgg string int string string
  | DateHistogram string pval string string

record query =
  q_filter :: "pred list"
  q_size :: "int option"
  q_sort :: "(string \<times> string) list"
  q_aggs :: "(string \<times> agg_spec) list"

text \<open>\<open>{k.lower(): v for k, v in params.items()}\<close>: a later item overwrites an earlier one.\<close>

definition lower_keys :: "raw_params \<Rightarrow> params" where
  "lower_keys raw = fold (\<lambda>(k, v) m. m(lower k \<mapsto> v)) raw Map.empty"

text \<open>\<open>k in params and params[k] is not None\<close>.\<close>

definition present :: "params \<Rightarrow> string \<Rightarrow> pval option" where
  "present params k = (case params k of Some PNone \<Rightarrow> None | r \<Rightarrow> r)"

text \<open>\<open>v.lower()\<close> on a parameter value: only a string has the method.\<close>

definition lower_pval :: "pval \<Rightarrow> error + string" where
  "lower_pval v = (case v of PStr s \<Rightarrow> Inr (lower s) | _ \<Rightarrow> Inl AttributeError)"

text \<open>The subreddit and author filters: the value is wrapped into a list unless it is one.\<close>

definition process_terms :: "string \<Rightarrow> params \<times> query \<Rightarrow> error + params \<times> query" where
  "process_terms condition pq =
     (case pq of (params, query) \<Rightarrow>
        (case present params condition of
           None \<Rightarrow> Inr (params, query)
         | Some v \<Rightarrow>
             (case (case v of PList xs \<Rightarrow> Inr (map lower xs)
                            | PStr s \<Rightarrow> Inr [lower s]
                            | _ \<Rightarrow> Inl AttributeError) of
                Inl e \<Rightarrow> Inl e
              | Inr xs \<Rightarrow>
                  Inr (params(condition \<mapsto> PList xs),
                       query\<lparr>q_filter := q_filter query @ [Terms condition xs]\<rparr>))))"

text \<open>
  \<open>_parse_time_value\<close>, with the reading of the clock as the argument \<open>now\<close>.  For a list
  of at least two items \<open>int(time_value[:-1])\<close> raises TypeError, which the function does
  not catch.
\<close>

definition parse_time_value :: "int \<Rightarrow> pval \<Rightarrow> error + int" where
  "parse_time_value now time_value =
     (case time_value of
        PInt n \<Rightarrow> Inr n
      | PNone \<Rightarrow> Inl ValueError
      | PList xs \<Rightarrow> if length xs < 2 then Inl ValueError else Inl TypeError
      | PStr s \<Rightarrow>
          (case int_of_string 10 s of
             Some n \<Rightarrow> Inr n
           | None \<Rightarrow>
               if s = [] \<or> length s < 2 then Inl ValueError
               else
                 (let unit = lower_char (last s) in
                  case int_of_string 10 (butlast s) of
                    None \<Rightarrow> Inl ValueError
                  | Some val \<Rightarrow>
                      if unit = CHR ''d'' then Inr (now - val * 86400)
                      else if unit = CHR ''h'' then Inr (now - val * 3600)
                      else if unit = CHR ''m'' then Inr (now - val * 60)
                      else if unit = CHR ''s'' then Inr (now - val)
                      else Inl ValueError)))"

text \<open>One half of \<open>_process_time_range\<close>: the key \<open>after\<close> with \<open>gt\<close>, or \<open>before\<close> with \<open>lt\<close>.\<close>

definition process_time_bound ::
  "int \<Rightarrow> string \<Rightarrow> (string \<Rightarrow> int \<Rightarrow> pred) \<Rightarrow> params \<times> query \<Rightarrow> error + params \<times> query" where
  "process_time_bound now k bound pq =
     (case pq of (params, query) \<Rightarrow>
        (case present params k of
           None \<Rightarrow> Inr (params(k \<mapsto> PNone), query)
         | Some v \<Rightarrow>
             (case parse_time_value now v of
                Inl e \<Rightarrow> Inl e
              | Inr t \<Rightarrow>
                  Inr (params(k \<mapsto> PInt t),
                       query\<lparr>q_filter := q_filter query @ [bound ''created_utc'' t]\<rparr>))))"

definition process_time_range :: "int \<Rightarrow> params \<times> query \<Rightarrow> error + params \<times> query" where
  "process_time_range now pq =
     (case process_time_bound now ''after'' RangeGt pq of
        Inl e \<Rightarrow> Inl e
      | Inr pq' \<Rightarrow> process_time_bound now ''before'' RangeLt pq')"

text \<open>
  \<open>_process_score_filter\<close> and \<open>_process_comment_count_filter\<close> differ in the key only.
  When no branch matches, the empty dictionary is appended to the filter list.
\<close>

definition process_number_filter :: "string \<Rightarrow> params \<times> query \<Rightarrow> error + params \<times> query" where
  "process_number_filter k pq =
     (case pq of (params, query) \<Rightarrow>
        (case present params k of
           None \<Rightarrow> Inr (params, query)
         | Some (PStr score) \<Rightarrow>
             (case (if take 1 score = ''<''
                    then (case int_of_string 10 (drop 1 score) of
                            None \<Rightarrow> Inl ValueError | Some n \<Rightarrow> Inr (RangeLt k n))
                    else if take 1 score = ''>''
                    then (case int_of_string 10 (drop 1 score) of
                            None \<Rightarrow> Inl ValueError | Some n \<Rightarrow> Inr (RangeGt k n))
                    else (case int_of_string 10 score of
                            None \<Rightarrow> Inr EmptyPred | Some n \<Rightarrow> Inr (Term k (PInt n)))) of
                Inl e \<Rightarrow> Inl e
              | Inr range_filter \<Rightarrow>
                  Inr (params, query\<lparr>q_filter := q_filter query @ [range_filter]\<rparr>))
         | Some _ \<Rightarrow> Inl AttributeError))"

definition process_score_filter :: "params \<times> query \<Rightarrow> error + params \<times> query" where
  "process_score_filter = process_number_filter ''score''"

definition process_comment_count_filter :: "params \<times> query \<Rightarrow> error + params \<times> query" where
  "process_comment_count_filter = process_number_filter ''num_comments''"

text \<open>The body of the loop of \<open>_process_boolean_filters\<close> for one flag.\<close>

definition process_boolean_filter :: "string \<Rightarrow> params \<times> query \<Rightarrow> error + params \<times> query" where
  "process_boolean_filter condition pq =
     (case pq of (params, query) \<Rightarrow>
        (case present params condition of
           None \<Rightarrow> Inr (params, query)
         | Some (PStr v) \<Rightarrow>
             if lower v = ''true'' \<or> v = ''1''
             then Inr (params, query\<lparr>q_filter := q_filter query @ [Term condition (PStr ''true'')]\<rparr>)
             else if lower v = ''false'' \<or> v = ''0''
             then Inr (params, query\<lparr>q_filter := q_filter query @ [Term condition (PStr ''false'')]\<rparr>)
             else Inr (params, query)
         | Some _ \<Rightarrow> Inl AttributeError))"

fun process_each :: "(string \<Rightarrow> params \<times> query \<Rightarrow> error + params \<times> query) \<Rightarrow> string list
    \<Rightarrow> params \<times> query \<Rightarrow> error + params \<times> query" where
  "process_each f [] pq = Inr pq"
| "process_each f (c # cs) pq = (case f c pq of Inl e \<Rightarrow> Inl e | Inr pq' \<Rightarrow> process_each f cs pq')"

definition process_boolean_filters :: "params \<times> query \<Rightarrow> error + params \<times> query" where
  "process_boolean_filters =
     process_each process_boolean_filter
       [''over_18'', ''is_video'', ''stickied'', ''spoiler'', ''locked'', ''contest_mode'']"

text \<open>The part of \<open>process\<close> after the filters: sort type, size, sort direction, frequency.\<close>

definition process_sort_type :: "params \<Rightarrow> error + params" where
  "process_sort_type params =
     (case present params ''sort_type'' of
        None \<Rightarrow> Inr (params(''sort_type'' \<mapsto> PStr ''created_utc''))
      | Some v \<Rightarrow> (case lower_pval v of
                     Inl e \<Rightarrow> Inl e
                   | Inr s \<Rightarrow> Inr (params(''sort_type'' \<mapsto> PStr s))))"

definition process_size :: "params \<times> query \<Rightarrow> params \<times> query" where
  "process_size pq =
     (case pq of (params0, query) \<Rightarrow>
        (let params = (case params0 ''limit'' of
                         None \<Rightarrow> params0
                       | Some l \<Rightarrow> params0(''size'' \<mapsto> l))
         in case present params ''size'' of
              None \<Rightarrow> (params(''size'' \<mapsto> PInt 25), query\<lparr>q_size := Some 25\<rparr>)
            | Some v \<Rightarrow>
                (case int_of_pval v of
                   Inr n \<Rightarrow> (let size = min 500 n
                             in (params(''size'' \<mapsto> PInt size), query\<lparr>q_size := Some size\<rparr>))
                 | Inl _ \<Rightarrow> (params(''size'' \<mapsto> PInt 25), query\<lparr>q_size := Some 25\<rparr>))))"

definition process_sort :: "params \<Rightarrow> error + params" where
  "process_sort params0 =
     (case (case present params0 ''order'' of
              None \<Rightarrow> Inr params0
            | Some v \<Rightarrow> (case lower_pval v of
                           Inl e \<Rightarrow> Inl e
                         | Inr s \<Rightarrow> Inr (params0(''sort'' \<mapsto> PStr s)))) of
        Inl e \<Rightarrow> Inl e
      | Inr params \<Rightarrow>
          (case present params ''sort'' of
             None \<Rightarrow> Inr (params(''sort'' \<mapsto> PStr ''desc''))
           | Some v \<Rightarrow> (case lower_pval v of
                          Inl e \<Rightarrow> Inl e
                        | Inr s \<Rightarrow> Inr (params(''sort'' \<mapsto> PStr s)))))"

text \<open>
  \<open>query['sort'][params['sort_type']] = params['sort']\<close>: both values are strings here,
  \<open>process_sort_type\<close> and \<open>process_sort\<close> have stored them.
\<close>

definition set_query_sort :: "params \<Rightarrow> query \<Rightarrow> query" where
  "set_query_sort params query =
     (case (params ''sort_type'', params ''sort'') of
        (Some (PStr t), Some (PStr d)) \<Rightarrow> query\<lparr>q_sort := AList.update t d (q_sort query)\<rparr>
      | _ \<Rightarrow> query)"

definition process_frequency :: "params \<Rightarrow> error + params" where
  "process_frequency params =
     (case params ''frequency'' of
        None \<Rightarrow> Inr (params(''frequency'' \<mapsto> PNone))
      | Some v \<Rightarrow>
          (case lower_pval v of
             Inl e \<Rightarrow> Inl e
           | Inr s \<Rightarrow>
               if s \<in> set [''second'', ''minute'', ''hour'', ''day'', ''week'', ''month'']
               then Inr (params(''frequency'' \<mapsto> PStr s))
               else Inr (params(''frequency'' \<mapsto> PNone))))"

text \<open>\<open>process\<close>: the steps in the order of the source; the first exception ends it.\<close>

definition process :: "int \<Rightarrow> raw_params \<Rightarrow> query \<Rightarrow> error + params \<times> query" where
  "process now raw query0 =
     (case process_each process_terms [''subreddit'', ''author''] (lower_keys raw, query0) of
        Inl e \<Rightarrow> Inl e
      | Inr pq1 \<Rightarrow>
     (case process_time_range now pq1 of
        Inl e \<Rightarrow> Inl e
      | Inr pq2 \<Rightarrow>
     (case process_score_filter pq2 of
        Inl e \<Rightarrow> Inl e
      | Inr pq3 \<Rightarrow>
     (case process_comment_count_filter pq3 of
        Inl e \<Rightarrow> Inl e
      | Inr pq4 \<Rightarrow>
     (case process_boolean_filters pq4 of
        Inl e \<Rightarrow> Inl e
      | Inr (params5, query5) \<Rightarrow>
     (case process_sort_type params5 of
        Inl e \<Rightarrow> Inl e
      | Inr params6 \<Rightarrow>
     (case process_size (params6, query5) of (params7, query7) \<Rightarrow>
     (case process_sort params7 of
        Inl e \<Rightarrow> Inl e
      | Inr params8 \<Rightarrow>
     (case process_frequency params8 of
        Inl e \<Rightarrow> Inl e
      | Inr params9 \<Rightarrow> Inr (params9, set_query_sort params8 query7))))))))))"

section \<open>The backend: requests, responses and the environment of a handler\<close>

text \<open>
  A decoded backend response.  A source document is a dictionary in insertion order.  A
  bucket of an aggregation has the keys the handlers read or write; \<open>bg_count\<close> and
  \<open>score\<close> exist in the buckets of a significant-terms aggregation only.  The type \<open>'f\<close>
  stands for Python's floats.
\<close>

type_synonym source = "(string \<times> jval) list"

record hit =
  hit_id :: jval
  hit_source :: source

record 'f bucket =
  b_key :: jval
  doc_count :: int
  bg_count :: "int option"
  score :: "'f option"
  key_as_string :: "string option"
  data :: "source option"

record 'f aggregations =
  agg_subreddit :: "'f bucket list option"
  agg_author :: "'f bucket list option"
  agg_created_utc :: "'f bucket list option"
  agg_link_id :: "'f bucket list option"

record 'f es_response =
  hits :: "hit list"
  total :: jval
  timed_out :: jval
  shards :: jval
  aggregations :: "'f aggregations option"

text \<open>
  A call of \<open>requests.get(url, data=..., timeout=...)\<close> either returns a response or raises
  a \<open>RequestException\<close> (a transport failure: no connection, a timeout).  A response has
  its status code and its text; \<open>decoded\<close> is what \<open>json.loads(response.text)\<close> gives,
  \<open>None\<close> when the text is not a JSON document, for which \<open>json.loads\<close> raises a
  \<open>ValueError\<close>.
\<close>

record request =
  url :: string
  body :: string
  timeout :: nat

record 'r response =
  status_code :: nat
  decoded :: "'r option"

datatype 'r outcome = Answer "'r response" | TransportFailure

text \<open>The documents the comment handler serialises: a search query, or a lookup by ids.\<close>

datatype doc = SearchDoc query | IdsDoc "jval list" int

text \<open>
  What a handler reads from outside: the two endpoints of the configuration, the network
  (the outcome of a request may depend on the requests made before it), the clock, the
  relational store, and the library functions \<open>json.dumps\<close>, \<open>html.unescape\<close>, the
  division \<open>/\<close> of two integers and \<open>int()\<close> of a float.  The requests made so far are
  the state that the functions pass on.
\<close>

record ('q, 'f) env =
  es_primary :: string
  es_fallback :: string
  json_dumps :: "'q \<Rightarrow> string"
  http :: "request list \<Rightarrow> request \<Rightarrow> 'f es_response outcome"
  now :: int
  html_unescape :: "string \<Rightarrow> string"
  pg_execute :: "int list \<Rightarrow> source list option"
  truediv :: "int \<Rightarrow> int \<Rightarrow> 'f"
  trunc_float :: "'f \<Rightarrow> int"

definition http_get ::
  "('q, 'f) env \<Rightarrow> request \<Rightarrow> request list \<Rightarrow> 'f es_response outcome \<times> request list" where
  "http_get env req sent = (http env sent req, sent @ [req])"

text \<open>
  The body of a \<open>try\<close> block of the handlers: \<open>requests.get\<close> and then
  \<open>response.raise_for_status()\<close>, which raises an \<open>HTTPError\<close> (a \<open>RequestException\<close>)
  when the status code is from 400 to 599 and returns otherwise.  \<open>None\<close> is: a
  \<open>RequestException\<close> was raised.
\<close>

definition get_and_raise_for_status ::
  "('q, 'f) env \<Rightarrow> request \<Rightarrow> request list
     \<Rightarrow> 'f es_response response option \<times> request list" where
  "get_and_raise_for_status env req sent =
     (case http_get env req sent of
        (Answer response, sent1) \<Rightarrow>
          (if 400 \<le> status_code response \<and> status_code response < 600 then None
           else Some response, sent1)
      | (TransportFailure, sent1) \<Rightarrow> (None, sent1))"

definition json_loads :: "'r response \<Rightarrow> error + 'r" where
  "json_loads response =
     (case decoded response of None \<Rightarrow> Inl ValueError | Some d \<Rightarrow> Inr d)"

fun and_then :: "error + 'a \<Rightarrow> ('a \<Rightarrow> error + 'b) \<Rightarrow> error + 'b" where
  "and_then (Inl e) f = Inl e"
| "and_then (Inr x) f = f x"

fun map_err :: "('a \<Rightarrow> error + 'b) \<Rightarrow> 'a list \<Rightarrow> error + 'b list" where
  "map_err f [] = Inr []"
| "map_err f (x # xs) =
     (case f x of
        Inl e \<Rightarrow> Inl e
      | Inr y \<Rightarrow> (case map_err f xs of Inl e \<Rightarrow> Inl e | Inr ys \<Rightarrow> Inr (y # ys)))"

section \<open>The retrieval executor\<close>

text \<open>
  \<open>_execute_search\<close> is the same text in \<open>CommentSearch\<close> and \<open>SubmissionSearch\<close>; the two
  classes differ in \<open>es_index\<close>.
\<close>

definition execute_search ::
  "('q, 'f) env \<Rightarrow> string \<Rightarrow> string \<Rightarrow> 'q \<Rightarrow> request list
     \<Rightarrow> (error + 'f es_response response) \<times> request list" where
  "execute_search env es_index uri q sent =
     (case get_and_raise_for_status env
             \<lparr>url = uri, body = json_dumps env q, timeout = 30\<rparr> sent of
        (Some response, sent1) \<Rightarrow> (Inr response, sent1)
      | (None, sent1) \<Rightarrow>
          (let fallback_uri = es_fallback env @ es_index in
           case get_and_raise_for_status env
                  \<lparr>url = fallback_uri, body = json_dumps env q, timeout = 30\<rparr> sent1 of
             (Some response, sent2) \<Rightarrow> (Inr response, sent2)
           | (None, sent2) \<Rightarrow> (Inl ElasticsearchError, sent2)))"

definition comment_es_index :: string where
  "comment_es_index = ''/rc/comments/_search''"


definition CommentSearch_execute_search ::
  "('q, 'f) env \<Rightarrow> string \<Rightarrow> 'q \<Rightarrow> request list
     \<Rightarrow> (error + 'f es_response response) \<times> request list" where
  "CommentSearch_execute_search env = execute_search env comment_es_index"


section \<open>Helpers.py: submission lookup\<close>

text \<open>\<open>source[k]\<close> raises KeyError for a missing key.\<close>

definition getitem :: "source \<Rightarrow> string \<Rightarrow> error + jval" where
  "getitem src k = (case map_of src k of None \<Rightarrow> Inl KeyError | Some v \<Rightarrow> Inr v)"

text \<open>\<open>str(n)\<close> of an integer, and the text an f-string inserts for a JSON value.\<close>

function dec_digits :: "nat \<Rightarrow> string \<Rightarrow> string" where
  "dec_digits n acc =
     (let acc' = ''0123456789'' ! (n mod 10) # acc
      in if n div 10 = 0 then acc' else dec_digits (n div 10) acc')"
  by pat_completeness auto
termination
  by (relation "measure fst") auto

declare dec_digits.simps [simp del]

definition str_of_int :: "int \<Rightarrow> string" where
  "str_of_int n = (if n < 0 then ''-'' @ dec_digits (nat (- n)) [] else dec_digits (nat n) [])"

definition str_of_jval :: "jval \<Rightarrow> string" where
  "str_of_jval v = (case v of JStr s \<Rightarrow> s | JInt n \<Rightarrow> str_of_int n | JNull \<Rightarrow> ''None'')"

text \<open>
  The loop over the hits in \<open>get_submissions_from_es\<close>: the result dictionary is keyed by
  the \<open>id\<close> of the source (\<open>None\<close> when it has none), whose \<open>id\<close> is then replaced by the
  base-36 form of the hit's \<open>_id\<close>.
\<close>

fun collect_submissions :: "hit list \<Rightarrow> (jval \<times> source) list \<Rightarrow> error + (jval \<times> source) list" where
  "collect_submissions [] results = Inr results"
| "collect_submissions (h # hs) results =
     (let src = hit_source h;
          base_10_id = (case map_of src ''id'' of None \<Rightarrow> JNull | Some v \<Rightarrow> v)
      in and_then (int_of_jval (hit_id h)) (\<lambda>n.
         and_then (base36encode (JInt n)) (\<lambda>s.
           collect_submissions hs
             (AList.update base_10_id (AList.update ''id'' (JStr s) src) results))))"

text \<open>
  \<open>get_submissions_from_es\<close> on a list of ids.  When the primary and the fallback request
  both fail, the result is the empty dictionary.  \<open>json.loads(response.text)\<close> is outside
  the \<open>try\<close> blocks.
\<close>

definition get_submissions_from_es ::
  "(doc, 'f) env \<Rightarrow> jval list \<Rightarrow> request list
     \<Rightarrow> (error + (jval \<times> source) list) \<times> request list" where
  "get_submissions_from_es env ids sent =
     (case map_err (\<lambda>i. case i of
                           JStr s \<Rightarrow> (case int_of_string 10 s of
                                        None \<Rightarrow> Inl ValueError | Some n \<Rightarrow> Inr (JInt n))
                         | _ \<Rightarrow> Inr i) ids of
        Inl e \<Rightarrow> (Inl e, sent)
      | Inr int_ids \<Rightarrow>
          (let q = IdsDoc int_ids 1000 in
           case get_and_raise_for_status env
                  \<lparr>url = es_primary env @ ''/rs/submissions/_search'',
                   body = json_dumps env q, timeout = 30\<rparr> sent of
             (Some response, sent1) \<Rightarrow>
               (and_then (json_loads response) (\<lambda>s. collect_submissions (hits s) []), sent1)
           | (None, sent1) \<Rightarrow>
               (case get_and_raise_for_status env
                       \<lparr>url = es_fallback env @ ''/rs/submissions/_search'',
                        body = json_dumps env q, timeout = 30\<rparr> sent1 of
                  (Some response, sent2) \<Rightarrow>
                    (and_then (json_loads response) (\<lambda>s. collect_submissions (hits s) []),
                     sent2)
                | (None, sent2) \<Rightarrow> (Inr [], sent2))))"

section \<open>Comment.py: the comment search handler\<close>

subsection \<open>Record normalisation\<close>

definition encode_field :: "source \<Rightarrow> string \<Rightarrow> error + string" where
  "encode_field src k = and_then (getitem src k) base36encode"

text \<open>The body of the loop over the rows in \<open>get_ids\<close>.\<close>

definition format_row :: "source \<Rightarrow> error + source" where
  "format_row comment0 =
     and_then (encode_field comment0 ''id'') (\<lambda>i.
       let comment1 = AList.update ''id'' (JStr i) comment0 in
       and_then
         (case map_of comment1 ''parent_id'' of
            None \<Rightarrow> and_then (encode_field comment1 ''link_id'') (\<lambda>l. Inr (''t3_'' @ l))
          | Some JNull \<Rightarrow> and_then (encode_field comment1 ''link_id'') (\<lambda>l. Inr (''t3_'' @ l))
          | Some p \<Rightarrow>
              and_then (getitem comment1 ''link_id'') (\<lambda>link.
                if p = link
                then and_then (encode_field comment1 ''link_id'') (\<lambda>l. Inr (''t3_'' @ l))
                else and_then (base36encode p) (\<lambda>e. Inr (''t1_'' @ e))))
         (\<lambda>parent.
       let comment2 = AList.update ''parent_id'' (JStr parent) comment1 in
       and_then
         (case map_of comment2 ''subreddit_id'' of
            None \<Rightarrow> Inr comment2
          | Some sr \<Rightarrow> and_then (base36encode sr) (\<lambda>e.
              Inr (AList.update ''subreddit_id'' (JStr (''t5_'' @ e)) comment2)))
         (\<lambda>comment3.
       and_then (encode_field comment3 ''link_id'') (\<lambda>l.
         Inr (AList.delete ''name'' (AList.update ''link_id'' (JStr (''t3_'' @ l)) comment3))))))"

text \<open>
  \<open>get_ids\<close>: the ids are lower-cased, stripped of the prefix \<open>t1_\<close> and decoded; a failure
  of the relational store becomes \<open>APIError\<close>.
\<close>

definition decode_comment_id :: "string \<Rightarrow> error + int" where
  "decode_comment_id comment_id0 =
     (let comment_id = lower comment_id0
      in base36decode (if take 3 comment_id = ''t1_'' then drop 3 comment_id else comment_id))"

definition get_ids :: "('q, 'f) env \<Rightarrow> pval \<Rightarrow> error + source list" where
  "get_ids env ids =
     and_then
       (case ids of
          PList xs \<Rightarrow> map_err decode_comment_id xs
        | PStr s \<Rightarrow> map_err decode_comment_id [s]
        | _ \<Rightarrow> Inl AttributeError)
       (\<lambda>ids_to_get_from_db.
          case pg_execute env ids_to_get_from_db of
            None \<Rightarrow> Inl APIError
          | Some rows \<Rightarrow> map_err format_row rows)"

text \<open>\<open>_apply_field_filter\<close>: it rewrites \<open>params['fields']\<close> and removes keys from the source.\<close>

definition apply_field_filter :: "params \<Rightarrow> source \<Rightarrow> error + params \<times> source" where
  "apply_field_filter params src =
     (case present params ''fields'' of
        None \<Rightarrow> Inr (params, src)
      | Some v \<Rightarrow>
          and_then (case v of
                      PStr s \<Rightarrow> Inr [lower s]
                    | PList xs \<Rightarrow> Inr (map lower xs)
                    | _ \<Rightarrow> Inl TypeError)
            (\<lambda>fields. Inr (params(''fields'' \<mapsto> PList fields),
                           filter (\<lambda>(k, _). lower k \<in> set fields) src)))"

text \<open>\<open>html.unescape(source.get(k, "")) or None\<close>.\<close>

definition unescape_field :: "(string \<Rightarrow> string) \<Rightarrow> source \<Rightarrow> string \<Rightarrow> error + jval" where
  "unescape_field unescape src k =
     (case (case map_of src k of
              None \<Rightarrow> Inr []
            | Some (JStr s) \<Rightarrow> Inr s
            | Some _ \<Rightarrow> Inl TypeError) of
        Inl e \<Rightarrow> Inl e
      | Inr s \<Rightarrow> Inr (if unescape s = [] then JNull else JStr (unescape s)))"

text \<open>The body of the loop over the hits in \<open>do_elasticsearch\<close>.\<close>

definition format_hit :: "('q, 'f) env \<Rightarrow> params \<Rightarrow> hit \<Rightarrow> error + params \<times> source" where
  "format_hit env params h =
     and_then (int_of_jval (hit_id h)) (\<lambda>n.
     and_then (base36encode (JInt n)) (\<lambda>i.
       let source1 = AList.update ''id'' (JStr i) (hit_source h) in
     and_then (encode_field source1 ''link_id'') (\<lambda>l.
       let source2 = AList.update ''link_id'' (JStr (''t3_'' @ l)) source1 in
     and_then
       (case map_of source2 ''parent_id'' of
          Some p \<Rightarrow> and_then (base36encode p) (\<lambda>e. Inr (JStr (''t1_'' @ e)))
        | None \<Rightarrow> getitem source2 ''link_id'')
       (\<lambda>parent.
       let source3 = AList.update ''parent_id'' parent source2 in
     and_then (encode_field source3 ''subreddit_id'') (\<lambda>sr.
       let source4 = AList.update ''subreddit_id'' (JStr (''t5_'' @ sr)) source3 in
     and_then (unescape_field (html_unescape env) source4 ''author_flair_text'') (\<lambda>t.
       let source5 = AList.update ''author_flair_text'' t source4 in
     and_then (unescape_field (html_unescape env) source5 ''author_flair_css_class'') (\<lambda>c.
       let source6 = AList.update ''author_flair_css_class'' c source5 in
       apply_field_filter params source6)))))))"

fun format_hits :: "('q, 'f) env \<Rightarrow> params \<Rightarrow> hit list \<Rightarrow> error + params \<times> source list" where
  "format_hits env params [] = Inr (params, [])"
| "format_hits env params (h # hs) =
     and_then (format_hit env params h) (\<lambda>(params1, src).
     and_then (format_hits env params1 hs) (\<lambda>(params2, srcs). Inr (params2, src # srcs)))"

subsection \<open>Aggregation post-processing\<close>

text \<open>\<open>bucket["score"] = bucket["doc_count"] / bucket["bg_count"]\<close>.\<close>

definition recompute_score :: "('q, 'f) env \<Rightarrow> 'f bucket \<Rightarrow> error + 'f bucket" where
  "recompute_score env b =
     (case bg_count b of
        None \<Rightarrow> Inl KeyError
      | Some bg \<Rightarrow>
          if bg = 0 then Inl ZeroDivisionError
          else Inr (b\<lparr>score := Some (truediv env (doc_count b) bg)\<rparr>))"

text \<open>
  \<open>sorted(xs, key=..., reverse=True)\<close>: a stable sort in descending order of the key;
  items with equal keys keep their order.
\<close>

definition sorted_reverse :: "('a \<Rightarrow> 'k::linorder) \<Rightarrow> 'a list \<Rightarrow> 'a list" where
  "sorted_reverse key xs = rev (sort_key key (rev xs))"

text \<open>The branch for \<open>subreddit\<close> of \<open>CommentSearch._process_aggregations\<close>.\<close>

definition subreddit_buckets ::
  "('q, 'f::linorder) env \<Rightarrow> 'f bucket list \<Rightarrow> error + 'f bucket list" where
  "subreddit_buckets env buckets =
     and_then (map_err (recompute_score env) buckets) (\<lambda>bs. Inr (sorted_reverse score bs))"

text \<open>The branches for \<open>author\<close> and \<open>created_utc\<close>.\<close>

definition rescore_if_present :: "('q, 'f) env \<Rightarrow> 'f bucket \<Rightarrow> error + 'f bucket" where
  "rescore_if_present env b = (if score b \<noteq> None then recompute_score env b else Inr b)"

definition author_buckets :: "('q, 'f) env \<Rightarrow> 'f bucket list \<Rightarrow> error + 'f bucket list" where
  "author_buckets env buckets = map_err (rescore_if_present env) buckets"

definition created_utc_bucket :: "('q, 'f) env \<Rightarrow> 'f bucket \<Rightarrow> error + 'f bucket" where
  "created_utc_bucket env b =
     (case b_key b of
        JInt k \<Rightarrow> Inr (b\<lparr>key_as_string := None,
                          b_key := JInt (trunc_float env (truediv env k 1000))\<rparr>)
      | _ \<Rightarrow> Inl TypeError)"

definition created_utc_buckets :: "('q, 'f) env \<Rightarrow> 'f bucket list \<Rightarrow> error + 'f bucket list" where
  "created_utc_buckets env buckets = map_err (created_utc_bucket env) buckets"

text \<open>
  The branch for \<open>link_id\<close>.  \<open>self.params\<close> is the dictionary \<open>process\<close> returned.  The loop
  that builds \<open>newlist\<close> keeps a bucket when its key is in \<open>submission_data\<close> and the
  submission's \<open>created_utc\<close> is greater than \<open>after\<close>.
\<close>

fun link_id_newlist ::
  "(jval \<times> source) list \<Rightarrow> int \<Rightarrow> 'f bucket list \<Rightarrow> error + 'f bucket list" where
  "link_id_newlist submission_data after [] = Inr []"
| "link_id_newlist submission_data after (item # items) =
     (case map_of submission_data (b_key item) of
        None \<Rightarrow> link_id_newlist submission_data after items
      | Some sub \<Rightarrow>
          and_then (getitem sub ''created_utc'') (\<lambda>c.
            case c of
              JInt created \<Rightarrow>
                if created > after
                then and_then (getitem sub ''permalink'') (\<lambda>p.
                     and_then (link_id_newlist submission_data after items) (\<lambda>rest.
                       Inr (item\<lparr>data := Some (AList.update ''full_link''
                              (JStr (''https://www.reddit.com'' @ str_of_jval p)) sub)\<rparr> # rest)))
                else link_id_newlist submission_data after items
            | _ \<Rightarrow> Inl TypeError))"

text \<open>
  The condition of that loop: the key of the bucket is in \<open>submission_data\<close> and the
  \<open>created_utc\<close> of the submission is greater than \<open>after\<close>.
\<close>

definition kept :: "(jval \<times> source) list \<Rightarrow> int \<Rightarrow> 'f bucket \<Rightarrow> bool" where
  "kept submission_data after b =
     (case map_of submission_data (b_key b) of
        None \<Rightarrow> False
      | Some sub \<Rightarrow> (case map_of sub ''created_utc'' of
                      Some (JInt created) \<Rightarrow> after < created
                    | _ \<Rightarrow> False))"

definition link_id_buckets ::
  "(doc, 'f) env \<Rightarrow> params \<Rightarrow> 'f bucket list \<Rightarrow> request list
     \<Rightarrow> (error + 'f bucket list) \<times> request list" where
  "link_id_buckets env params buckets0 sent =
     (case map_err (rescore_if_present env) buckets0 of
        Inl e \<Rightarrow> (Inl e, sent)
      | Inr buckets \<Rightarrow>
          (case get_submissions_from_es env (map b_key buckets) sent of
             (Inl e, sent1) \<Rightarrow> (Inl e, sent1)
           | (Inr submission_data, sent1) \<Rightarrow>
               (case (case params ''after'' of
                        None \<Rightarrow> Inr 0
                      | Some v \<Rightarrow> int_of_pval v) of
                  Inl e \<Rightarrow> (Inl e, sent1)
                | Inr after \<Rightarrow> (link_id_newlist submission_data after buckets, sent1))))"

text \<open>\<open>_process_aggregations\<close>: the four branches in the order of the source.\<close>

definition opt_buckets ::
  "('a list \<Rightarrow> error + 'a list) \<Rightarrow> 'a list option \<Rightarrow> error + 'a list option" where
  "opt_buckets f bs =
     (case bs of
        None \<Rightarrow> Inr None
      | Some xs \<Rightarrow> and_then (f xs) (\<lambda>ys. Inr (Some ys)))"

definition process_aggregations ::
  "(doc, 'f::linorder) env \<Rightarrow> params \<Rightarrow> 'f aggregations \<Rightarrow> request list
     \<Rightarrow> (error + 'f aggregations) \<times> request list" where
  "process_aggregations env params aggs sent =
     (case opt_buckets (subreddit_buckets env) (agg_subreddit aggs) of
        Inl e \<Rightarrow> (Inl e, sent)
      | Inr subreddit \<Rightarrow>
     (case opt_buckets (author_buckets env) (agg_author aggs) of
        Inl e \<Rightarrow> (Inl e, sent)
      | Inr author \<Rightarrow>
     (case opt_buckets (created_utc_buckets env) (agg_created_utc aggs) of
        Inl e \<Rightarrow> (Inl e, sent)
      | Inr created \<Rightarrow>
     (case agg_link_id aggs of
        None \<Rightarrow>
          (Inr \<lparr>agg_subreddit = subreddit, agg_author = author,
                agg_created_utc = created, agg_link_id = None\<rparr>, sent)
      | Some buckets \<Rightarrow>
          (case link_id_buckets env params buckets sent of
             (Inl e, sent1) \<Rightarrow> (Inl e, sent1)
           | (Inr newlist, sent1) \<Rightarrow>
               (Inr \<lparr>agg_subreddit = subreddit, agg_author = author,
                     agg_created_utc = created, agg_link_id = Some newlist\<rparr>, sent1))))))"

subsection \<open>Building and sending the query\<close>

text \<open>The loop of \<open>_add_aggregations\<close> over the requested aggregation names.\<close>

fun add_aggregation_loop ::
  "pval \<Rightarrow> string list \<Rightarrow> params \<times> query \<Rightarrow> error + params \<times> query" where
  "add_aggregation_loop min_doc_count [] pq = Inr pq"
| "add_aggregation_loop min_doc_count (agg # aggs) (params, q) =
     (let agg_lower = lower agg in
      if agg_lower = ''subreddit''
      then add_aggregation_loop min_doc_count aggs
             (params, q\<lparr>q_aggs := AList.update ''subreddit''
                (SignificantTerms ''subreddit.keyword'' 1000 ''painless'' ''params._subset_freq''
                   min_doc_count) (q_aggs q)\<rparr>)
      else if agg_lower = ''author''
      then add_aggregation_loop min_doc_count aggs
             (params, q\<lparr>q_aggs := AList.update ''author''
                (TermsAgg ''author.keyword'' 1000 ''_count'' ''desc'') (q_aggs q)\<rparr>)
      else if agg_lower = ''created_utc''
      then (case params ''frequency'' of
              None \<Rightarrow> Inl KeyError
            | Some f \<Rightarrow>
                (let frequency = (if f = PNone then PStr ''day'' else f) in
                 add_aggregation_loop min_doc_count aggs
                   (params(''frequency'' \<mapsto> frequency),
                    q\<lparr>q_aggs := AList.update ''created_utc''
                        (DateHistogram ''created_utc'' frequency ''_key'' ''asc'') (q_aggs q)\<rparr>)))
      else if agg_lower = ''link_id''
      then add_aggregation_loop min_doc_count aggs
             (params, q\<lparr>q_aggs := AList.update ''link_id''
                (TermsAgg ''link_id'' 250 ''_count'' ''desc'') (q_aggs q)\<rparr>)
      else add_aggregation_loop min_doc_count aggs (params, q))"

text \<open>
  \<open>_add_aggregations\<close>: nothing happens when \<open>aggs\<close> is missing or falsy; a string is
  wrapped into a list; iterating over an integer raises TypeError.
\<close>

definition add_aggregations :: "params \<times> query \<Rightarrow> error + params \<times> query" where
  "add_aggregations pq =
     (case pq of (params, q) \<Rightarrow>
        (case params ''aggs'' of
           None \<Rightarrow> Inr (params, q)
         | Some PNone \<Rightarrow> Inr (params, q)
         | Some (PStr s) \<Rightarrow>
             if s = [] then Inr (params, q)
             else add_aggregation_loop
                    (case present params ''min_doc_count'' of
                       None \<Rightarrow> PInt 0
                     | Some m \<Rightarrow> if looks_like_int m then m else PInt 0)
                    [s] (params(''aggs'' \<mapsto> PList [s]), q)
         | Some (PList xs) \<Rightarrow>
             if xs = [] then Inr (params, q)
             else add_aggregation_loop
                    (case present params ''min_doc_count'' of
                       None \<Rightarrow> PInt 0
                     | Some m \<Rightarrow> if looks_like_int m then m else PInt 0)
                    xs (params, q)
         | Some (PInt n) \<Rightarrow> if n = 0 then Inr (params, q) else Inl TypeError))"

text \<open>
  The metadata of a search result.  The execution time and the version tag that \<open>on_get\<close>
  adds are left out.
\<close>

record metadata =
  md_size :: "pval option"
  md_sort :: "pval option"
  md_sort_type :: "pval option"
  md_after :: "pval option"
  md_results_returned :: "nat option"
  md_timed_out :: "jval option"
  md_total_results :: "jval option"
  md_shards :: "jval option"

definition empty_metadata :: metadata where
  "empty_metadata =
     \<lparr>md_size = None, md_sort = None, md_sort_type = None, md_after = None,
      md_results_returned = None, md_timed_out = None, md_total_results = None,
      md_shards = None\<rparr>"

text \<open>
  \<open>CommentSearch.search\<close>: it reads the raw parameters of the request and returns the
  decoded response, the metadata and the processed parameters (the new \<open>self.params\<close>).
\<close>

definition search ::
  "(doc, 'f) env \<Rightarrow> raw_params \<Rightarrow> string \<Rightarrow> request list
     \<Rightarrow> (error + 'f es_response \<times> metadata \<times> params) \<times> request list" where
  "search env raw uri sent =
     (let q0 = \<lparr>q_filter = (case map_of raw ''q'' of
                               None \<Rightarrow> []
                             | Some PNone \<Rightarrow> []
                             | Some v \<Rightarrow> [SimpleQueryString v (Some [''body''])]),
                q_size = None, q_sort = [], q_aggs = []\<rparr>
      in case and_then (process (now env) raw q0) add_aggregations of
           Inl e \<Rightarrow> (Inl e, sent)
         | Inr (params, q) \<Rightarrow>
             (case CommentSearch_execute_search env uri (SearchDoc q) sent of
                (Inl e, sent1) \<Rightarrow> (Inl e, sent1)
              | (Inr response, sent1) \<Rightarrow>
                  (case json_loads response of
                     Inl e \<Rightarrow> (Inl e, sent1)
                   | Inr d \<Rightarrow>
                       (Inr (d,
                             empty_metadata\<lparr>md_size := params ''size'',
                               md_sort := params ''sort'',
                               md_sort_type := params ''sort_type'',
                               md_after := present params ''after''\<rparr>,
                             params), sent1))))"

text \<open>The body of a successful response, and the response of \<open>on_get\<close>.\<close>

record 'f result_data =
  r_aggs :: "'f aggregations option"
  r_data :: "source list"
  r_metadata :: metadata

datatype 'f http_response = Ok200 "'f result_data" | Error500 error

definition do_elasticsearch ::
  "(doc, 'f::linorder) env \<Rightarrow> raw_params \<Rightarrow> request list
     \<Rightarrow> (error + 'f result_data) \<times> request list" where
  "do_elasticsearch env raw sent =
     (case search env raw (es_primary env @ comment_es_index) sent of
        (Inl e, sent1) \<Rightarrow> (Inl e, sent1)
      | (Inr (response, md, params), sent1) \<Rightarrow>
          (case format_hits env params (hits response) of
             Inl e \<Rightarrow> (Inl e, sent1)
           | Inr (params1, results) \<Rightarrow>
               (case (case aggregations response of
                        None \<Rightarrow> (Inr None, sent1)
                      | Some aggs \<Rightarrow>
                          (case process_aggregations env params1 aggs sent1 of
                             (Inl e, sent2) \<Rightarrow> (Inl e, sent2)
                           | (Inr a, sent2) \<Rightarrow> (Inr (Some a), sent2))) of
                  (Inl e, sent2) \<Rightarrow> (Inl e, sent2)
                | (Inr aggs, sent2) \<Rightarrow>
                    (Inr \<lparr>r_aggs = aggs, r_data = results,
                          r_metadata = md\<lparr>md_results_returned := Some (length (hits response)),
                            md_timed_out := Some (timed_out response),
                            md_total_results := Some (total response),
                            md_shards := Some (shards response)\<rparr>\<rparr>, sent2))))"

text \<open>
  \<open>CommentSearch.on_get\<close>: any exception becomes the response with status 500 and the
  error envelope.
\<close>

definition on_get ::
  "(doc, 'f::linorder) env \<Rightarrow> raw_params \<Rightarrow> request list
     \<Rightarrow> 'f http_response \<times> request list" where
  "on_get env raw sent =
     (case (case map_of raw ''ids'' of
              Some ids \<Rightarrow>
                (and_then (get_ids env ids) (\<lambda>results.
                   Inr \<lparr>r_aggs = None, r_data = results, r_metadata = empty_metadata\<rparr>), sent)
            | None \<Rightarrow> do_elasticsearch env raw sent) of
        (Inl e, sent1) \<Rightarrow> (Error500 e, sent1)
      | (Inr d, sent1) \<Rightarrow> (Ok200 d, sent1))"

section \<open>Submission.py: the subreddit aggregation\<close>



section \<open>Inputs for evaluation\<close>

text \<open>
  The time-parameter values the specification calls malformed: neither an epoch integer
  nor an integer followed by one of the units \<open>s\<close>, \<open>m\<close>, \<open>h\<close>, \<open>d\<close>.
\<close>

definition malformed_time :: "string \<Rightarrow> bool" where
  "malformed_time s =
     (int_of_string 10 s = None \<and>
      (length s < 2 \<or> int_of_string 10 (butlast s) = None
       \<or> lower_char (last s) \<notin> set ''dhms''))"

definition empty_query :: query where
  "empty_query = \<lparr>q_filter = [], q_size = None, q_sort = [], q_aggs = []\<rparr>"

text \<open>
  A sample backend.  The comment index answers with no hits and one bucket of the
  \<open>link_id\<close> aggregation, for submission 10; the submission index answers with that
  submission, created at 1600000000.  Floats are taken as rationals and the serialiser
  writes the kind of document and its size only: the evaluations below do not depend on
  either.
\<close>

definition sample_bucket :: "rat bucket" where
  "sample_bucket =
     \<lparr>b_key = JInt 10, doc_count = 3, bg_count = None, score = None,
      key_as_string = None, data = None\<rparr>"

definition sample_comments :: "rat es_response" where
  "sample_comments =
     \<lparr>hits = [], total = JInt 0, timed_out = JNull, shards = JNull,
      aggregations = Some \<lparr>agg_subreddit = None, agg_author = None, agg_created_utc = None,
                           agg_link_id = Some [sample_bucket]\<rparr>\<rparr>"

definition sample_submissions :: "rat es_response" where
  "sample_submissions =
     \<lparr>hits = [\<lparr>hit_id = JStr ''10'',
               hit_source = [(''id'', JInt 10), (''created_utc'', JInt 1600000000),
                             (''permalink'', JStr ''/r/python/comments/a/'')]\<rparr>],
      total = JInt 1, timed_out = JNull, shards = JNull, aggregations = None\<rparr>"

definition sample_dumps :: "doc \<Rightarrow> string" where
  "sample_dumps d =
     (case d of
        SearchDoc q \<Rightarrow> ''search '' @ str_of_int (case q_size q of None \<Rightarrow> 0 | Some n \<Rightarrow> n)
      | IdsDoc ids n \<Rightarrow> ''ids '' @ str_of_int n)"

definition sample_env ::
  "(request list \<Rightarrow> request \<Rightarrow> rat es_response outcome) \<Rightarrow> (doc, rat) env" where
  "sample_env net =
     \<lparr>es_primary = ''http://mars:9200'', es_fallback = ''http://jupiter:9200'',
      json_dumps = sample_dumps, http = net, now = 1700000000,
      html_unescape = (\<lambda>s. s), pg_execute = (\<lambda>ids. Some []),
      truediv = (\<lambda>a b. of_int a / of_int b), trunc_float = (\<lambda>x. \<lfloor>x\<rfloor>)\<rparr>"

text \<open>
  Both indexes of the primary endpoint answer; the primary endpoint answers 503 for the
  comment index and nothing else is reachable; the comment index answers and every other
  request is answered 503.
\<close>

definition net_up :: "request list \<Rightarrow> request \<Rightarrow> rat es_response outcome" where
  "net_up sent req =
     (if url req = ''http://mars:9200/rc/comments/_search''
      then Answer \<lparr>status_code = 200, decoded = Some sample_comments\<rparr>
      else if url req = ''http://mars:9200/rs/submissions/_search''
      then Answer \<lparr>status_code = 200, decoded = Some sample_submissions\<rparr>
      else TransportFailure)"


definition net_lookup_down :: "request list \<Rightarrow> request \<Rightarrow> rat es_response outcome" where
  "net_lookup_down sent req =
     (if url req = ''http://mars:9200/rc/comments/_search''
      then Answer \<lparr>status_code = 200, decoded = Some sample_comments\<rparr>
      else Answer \<lparr>status_code = 503, decoded = None\<rparr>)"






section \<open>Properties of the codec\<close>

lemma length_alphabet: "length alphabet = 36"
  by (simp add: alphabet_def)

lemma encode_loop_step:
  "0 < n \<Longrightarrow> encode_loop n s = encode_loop (n div 36) (alphabet ! (n mod 36) # s)"
  by (subst encode_loop.simps) (simp add: length_alphabet)

lemma encode_loop_0: "encode_loop 0 s = s"
  by (subst encode_loop.simps) simp

















text \<open>
  C8, as the code has it: a negative integer is not rejected; its encoding is a minus sign
  followed by the encoding of its absolute value.
\<close>

theorem base36encode_negative:
  "n < 0 \<Longrightarrow> \<exists>s. base36encode (JInt (- n)) = Inr s \<and> base36encode (JInt n) = Inr (''-'' @ s)"
  by (simp add: base36encode_def Let_def)

theorem base36encode_negative_witness:
  "(- 1295 :: int) < 0 \<and> base36encode (JInt 1295) = Inr ''zz''
     \<and> base36encode (JInt (- 1295)) = Inr ''-zz''"
  using base36encode_negative [of "- 1295"]
  by (simp add: base36encode_def length_alphabet encode_loop_step encode_loop_0 alphabet_def)

theorem base36encode_negative_counterexample:
  "base36encode (JInt (- 1)) = Inr ''-1''"
  by (simp add: base36encode_def alphabet_def)

section \<open>The retrieval executor\<close>

text \<open>
  The request raised a \<open>RequestException\<close>: a transport failure, or an answer whose status
  \<open>raise_for_status\<close> refuses.
\<close>

lemma get_and_raise_for_status_None:
  assumes "http env sent req = TransportFailure
             \<or> (\<exists>r. http env sent req = Answer r \<and> 400 \<le> status_code r \<and> status_code r < 600)"
  shows "get_and_raise_for_status env req sent = (None, sent @ [req])"
  using assms by (auto simp: get_and_raise_for_status_def http_get_def)







section \<open>Parameter normalisation\<close>

lemma process_terms_other:
  "process_terms c (p, q) = Inr (p', q') \<Longrightarrow> k \<noteq> c \<Longrightarrow> p' k = p k"
  by (auto simp: process_terms_def split: option.splits pval.splits sum.splits)

lemma process_each_terms_other:
  "process_each process_terms cs (p, q) = Inr (p', q') \<Longrightarrow> k \<notin> set cs \<Longrightarrow> p' k = p k"
proof (induction cs arbitrary: p q)
  case Nil
  then show ?case by simp
next
  case (Cons c cs)
  from Cons.prems(1) obtain p1 q1 where
    step: "process_terms c (p, q) = Inr (p1, q1)" and
    rest: "process_each process_terms cs (p1, q1) = Inr (p', q')"
    by (auto split: sum.splits)
  have "p' k = p1 k" using Cons.IH [OF rest] Cons.prems(2) by simp
  also have "p1 k = p k" using process_terms_other [OF step] Cons.prems(2) by simp
  finally show ?case .
qed

lemma process_time_bound_other:
  "process_time_bound t c b (p, q) = Inr (p', q') \<Longrightarrow> k \<noteq> c \<Longrightarrow> p' k = p k"
  by (auto simp: process_time_bound_def split: option.splits sum.splits)

lemma process_time_range_other:
  assumes "process_time_range t (p, q) = Inr (p', q')" and "k \<noteq> ''after''" and "k \<noteq> ''before''"
  shows "p' k = p k"
proof -
  from assms(1) obtain p1 q1 where
    a: "process_time_bound t ''after'' RangeGt (p, q) = Inr (p1, q1)" and
    b: "process_time_bound t ''before'' RangeLt (p1, q1) = Inr (p', q')"
    by (auto simp: process_time_range_def split: sum.splits)
  show ?thesis
    using process_time_bound_other [OF a assms(2)] process_time_bound_other [OF b assms(3)] by simp
qed

lemma process_number_filter_params:
  "process_number_filter c (p, q) = Inr (p', q') \<Longrightarrow> p' = p"
  by (auto simp: process_number_filter_def split: option.splits pval.splits sum.splits if_splits)

lemma process_boolean_filter_params:
  "process_boolean_filter c (p, q) = Inr (p', q') \<Longrightarrow> p' = p"
  by (auto simp: process_boolean_filter_def split: option.splits pval.splits if_splits)

lemma process_each_boolean_params:
  "process_each process_boolean_filter cs (p, q) = Inr (p', q') \<Longrightarrow> p' = p"
proof (induction cs arbitrary: p q)
  case Nil
  then show ?case by simp
next
  case (Cons c cs)
  from Cons.prems obtain p1 q1 where
    step: "process_boolean_filter c (p, q) = Inr (p1, q1)" and
    rest: "process_each process_boolean_filter cs (p1, q1) = Inr (p', q')"
    by (auto split: sum.splits)
  show ?case using Cons.IH [OF rest] process_boolean_filter_params [OF step] by simp
qed

lemma process_sort_type_other:
  "process_sort_type p = Inr p' \<Longrightarrow> k \<noteq> ''sort_type'' \<Longrightarrow> p' k = p k"
  by (auto simp: process_sort_type_def split: option.splits sum.splits)

lemma process_sort_other:
  "process_sort p = Inr p' \<Longrightarrow> k \<noteq> ''sort'' \<Longrightarrow> p' k = p k"
  by (auto simp: process_sort_def split: option.splits sum.splits)

lemma process_frequency_other:
  "process_frequency p = Inr p' \<Longrightarrow> k \<noteq> ''frequency'' \<Longrightarrow> p' k = p k"
  by (auto simp: process_frequency_def split: option.splits sum.splits if_splits)

lemma q_size_set_query_sort: "q_size (set_query_sort p q) = q_size q"
  by (simp add: set_query_sort_def split: option.splits pval.splits)

text \<open>The stages of \<open>process\<close> that a successful run goes through.\<close>

lemma process_stages:
  assumes "process t raw q0 = Inr (params, query)"
  shows "\<exists>p6 q5 p7 q7 p8.
           (\<forall>k. k \<notin> {''subreddit'', ''author'', ''after'', ''before'', ''sort_type''}
                 \<longrightarrow> p6 k = lower_keys raw k)
         \<and> process_size (p6, q5) = (p7, q7)
         \<and> process_sort p7 = Inr p8
         \<and> process_frequency p8 = Inr params
         \<and> query = set_query_sort p8 q7"
proof -
  from assms obtain p1 q1 where
    s1: "process_each process_terms [''subreddit'', ''author''] (lower_keys raw, q0) = Inr (p1, q1)"
    by (auto simp: process_def split: sum.splits)
  from assms s1 obtain p2 q2 where
    s2: "process_time_range t (p1, q1) = Inr (p2, q2)"
    by (auto simp: process_def split: sum.splits)
  from assms s1 s2 obtain p3 q3 where
    s3: "process_score_filter (p2, q2) = Inr (p3, q3)"
    by (auto simp: process_def split: sum.splits)
  from assms s1 s2 s3 obtain p4 q4 where
    s4: "process_comment_count_filter (p3, q3) = Inr (p4, q4)"
    by (auto simp: process_def split: sum.splits)
  from assms s1 s2 s3 s4 obtain p5 q5 where
    s5: "process_boolean_filters (p4, q4) = Inr (p5, q5)"
    by (auto simp: process_def split: sum.splits)
  from assms s1 s2 s3 s4 s5 obtain p6 where
    s6: "process_sort_type p5 = Inr p6"
    by (auto simp: process_def split: sum.splits)
  obtain p7 q7 where s7: "process_size (p6, q5) = (p7, q7)"
    by (cases "process_size (p6, q5)")
  from assms s1 s2 s3 s4 s5 s6 s7 obtain p8 where
    s8: "process_sort p7 = Inr p8"
    by (auto simp: process_def split: sum.splits)
  from assms s1 s2 s3 s4 s5 s6 s7 s8 have
    s9: "process_frequency p8 = Inr params" and q: "query = set_query_sort p8 q7"
    by (auto simp: process_def split: sum.splits)
  have p3: "p3 = p2"
    using s3 unfolding process_score_filter_def by (rule process_number_filter_params)
  have p4: "p4 = p3"
    using s4 unfolding process_comment_count_filter_def by (rule process_number_filter_params)
  have p5: "p5 = p4"
    using s5 unfolding process_boolean_filters_def by (rule process_each_boolean_params)
  have "\<forall>k. k \<notin> {''subreddit'', ''author'', ''after'', ''before'', ''sort_type''}
                 \<longrightarrow> p6 k = lower_keys raw k"
  proof (intro allI impI)
    fix k :: string
    assume k: "k \<notin> {''subreddit'', ''author'', ''after'', ''before'', ''sort_type''}"
    have "p6 k = p5 k" using process_sort_type_other [OF s6] k by simp
    also have "p5 k = p2 k" by (simp add: p5 p4 p3)
    also have "p2 k = p1 k" using process_time_range_other [OF s2] k by simp
    also have "p1 k = lower_keys raw k" using process_each_terms_other [OF s1] k by simp
    finally show "p6 k = lower_keys raw k" .
  qed
  with s7 s8 s9 q show ?thesis by blast
qed

lemma process_size_result:
  assumes "process_size (p, q) = (p', q')"
  shows "\<exists>n. p' ''size'' = Some (PInt n) \<and> q_size q' = Some n \<and> n \<le> 500
           \<and> n = (case (case p ''limit'' of Some l \<Rightarrow> Some l | None \<Rightarrow> p ''size'') of
                    None \<Rightarrow> 25
                  | Some v \<Rightarrow> (case int_of_pval v of Inr m \<Rightarrow> min 500 m | Inl _ \<Rightarrow> 25))"
  using assms
  by (auto simp: process_size_def present_def Let_def int_of_pval_def
           split: option.splits pval.splits sum.splits)

text \<open>
  C2, as the code has it: when \<open>process\<close> returns, the size it stores in the parameters and
  in the query is at most 500: it is \<open>min(500, int(v))\<close> for the value \<open>v\<close> of \<open>limit\<close> (or of
  \<open>size\<close> when there is no \<open>limit\<close>) when \<open>int(v)\<close> succeeds, and 25 otherwise.  There is no
  lower bound.
\<close>

theorem process_size_capped:
  assumes "process t raw q0 = Inr (params, query)"
  shows "\<exists>n. params ''size'' = Some (PInt n) \<and> q_size query = Some n \<and> n \<le> 500
           \<and> n = (case (case lower_keys raw ''limit'' of
                           Some l \<Rightarrow> Some l
                         | None \<Rightarrow> lower_keys raw ''size'') of
                    None \<Rightarrow> 25
                  | Some v \<Rightarrow> (case int_of_pval v of Inr m \<Rightarrow> min 500 m | Inl _ \<Rightarrow> 25))"
proof -
  from process_stages [OF assms] obtain p6 q5 p7 q7 p8 where
    same: "\<forall>k. k \<notin> {''subreddit'', ''author'', ''after'', ''before'', ''sort_type''}
                 \<longrightarrow> p6 k = lower_keys raw k" and
    size: "process_size (p6, q5) = (p7, q7)" and
    sort: "process_sort p7 = Inr p8" and
    freq: "process_frequency p8 = Inr params" and
    q: "query = set_query_sort p8 q7"
    by blast
  have limit: "p6 ''limit'' = lower_keys raw ''limit''" and sz: "p6 ''size'' = lower_keys raw ''size''"
    using same by simp_all
  from process_size_result [OF size] obtain n where
    n: "p7 ''size'' = Some (PInt n)" "q_size q7 = Some n" "n \<le> 500"
       "n = (case (case p6 ''limit'' of Some l \<Rightarrow> Some l | None \<Rightarrow> p6 ''size'') of
                    None \<Rightarrow> 25
                  | Some v \<Rightarrow> (case int_of_pval v of Inr m \<Rightarrow> min 500 m | Inl _ \<Rightarrow> 25))"
    by blast
  have "params ''size'' = p8 ''size''" using process_frequency_other [OF freq] by simp
  also have "p8 ''size'' = p7 ''size''" using process_sort_other [OF sort] by simp
  finally have "params ''size'' = Some (PInt n)" using n(1) by simp
  moreover have "q_size query = Some n" using q n(2) by (simp add: q_size_set_query_sort)
  moreover have "n = (case (case lower_keys raw ''limit'' of
                           Some l \<Rightarrow> Some l
                         | None \<Rightarrow> lower_keys raw ''size'') of
                    None \<Rightarrow> 25
                  | Some v \<Rightarrow> (case int_of_pval v of Inr m \<Rightarrow> min 500 m | Inl _ \<Rightarrow> 25))"
    using n(4) unfolding limit sz .
  ultimately show ?thesis using n(3) by blast
qed


lemmas process_unfold =
  process_def process_terms_def present_def process_time_range_def process_time_bound_def
  process_score_filter_def process_comment_count_filter_def process_number_filter_def
  process_boolean_filters_def process_boolean_filter_def process_sort_type_def process_size_def
  process_sort_def process_frequency_def set_query_sort_def lower_pval_def
  lower_keys_def lower_def lower_char_def empty_query_def
  int_of_pval_def int_of_string_def int_max_str_digits_def strip_int_def int_space_def
  digit_val_def

lemma process_limit_1000:
  "process 0 [(''Limit'', PStr ''1000'')] empty_query =
     Inr ([''limit'' \<mapsto> PStr ''1000'', ''after'' \<mapsto> PNone, ''before'' \<mapsto> PNone,
           ''sort_type'' \<mapsto> PStr ''created_utc'', ''size'' \<mapsto> PInt 500,
           ''sort'' \<mapsto> PStr ''desc'', ''frequency'' \<mapsto> PNone],
          \<lparr>q_filter = [], q_size = Some 500, q_sort = [(''created_utc'', ''desc'')], q_aggs = []\<rparr>)"
  by (simp add: process_unfold)

theorem process_size_capped_witness:
  "process 0 [(''Limit'', PStr ''1000'')] empty_query =
     Inr ([''limit'' \<mapsto> PStr ''1000'', ''after'' \<mapsto> PNone, ''before'' \<mapsto> PNone,
           ''sort_type'' \<mapsto> PStr ''created_utc'', ''size'' \<mapsto> PInt 500,
           ''sort'' \<mapsto> PStr ''desc'', ''frequency'' \<mapsto> PNone],
          \<lparr>q_filter = [], q_size = Some 500, q_sort = [(''created_utc'', ''desc'')], q_aggs = []\<rparr>)
   \<and> (\<exists>n. q_size \<lparr>q_filter = [], q_size = Some 500, q_sort = [(''created_utc'', ''desc'')],
                    q_aggs = []\<rparr> = Some n \<and> n \<le> 500)"
  using process_limit_1000 process_size_capped [OF process_limit_1000] by simp

theorem process_size_capped_counterexample:
  "(case process 0 [(''size'', PStr ''0'')] empty_query of
      Inr (params, query) \<Rightarrow> params ''size'' = Some (PInt 0) \<and> q_size query = Some 0
    | Inl e \<Rightarrow> False)"
  by (simp add: process_unfold)


lemma lower_char_bit5:
  "lower_char (Char b0 b1 b2 b3 b4 True b6 b7) = Char b0 b1 b2 b3 b4 True b6 b7"
  by (cases b6; cases b7; cases b0; cases b1; cases b2; cases b3; cases b4;
      simp add: lower_char_def)

lemma if_either: "(if P then x else y) = y \<or> (if P then x else y) = x"
  by simp

lemma lower_char_idem: "lower_char (lower_char c) = lower_char c"
proof (cases c)
  case (Char b0 b1 b2 b3 b4 b5 b6 b7)
  have "lower_char c = c \<or> lower_char c = Char b0 b1 b2 b3 b4 True b6 b7"
    unfolding lower_char_def Let_def Char char.case by (rule if_either)
  then show ?thesis
  proof
    assume "lower_char c = c"
    then show ?thesis by simp
  next
    assume "lower_char c = Char b0 b1 b2 b3 b4 True b6 b7"
    then show ?thesis by (simp add: lower_char_bit5)
  qed
qed

lemma lower_idem: "lower (lower s) = lower s"
  by (simp add: lower_def lower_char_idem)

lemma process_size_other:
  "process_size (p, q) = (p', q') \<Longrightarrow> k \<noteq> ''size'' \<Longrightarrow> p' k = p k"
  by (auto simp: process_size_def Let_def split: option.splits sum.splits)

lemma process_sort_result:
  assumes "process_sort p = Inr p'"
  shows "p' ''sort'' = Some (PStr (case present p ''order'' of
                                    Some (PStr s) \<Rightarrow> lower s
                                  | _ \<Rightarrow> (case present p ''sort'' of
                                             Some (PStr s) \<Rightarrow> lower s
                                           | _ \<Rightarrow> ''desc'')))"
  using assms
  by (auto simp: process_sort_def present_def lower_pval_def lower_idem
           split: option.splits pval.splits sum.splits)


text \<open>
  C9, as the code has it: when \<open>process\<close> returns, the sort direction is \<open>desc\<close> when neither
  \<open>order\<close> nor \<open>sort\<close> is given, and the lower-cased value of \<open>order\<close> (or of \<open>sort\<close> when
  there is no \<open>order\<close>) otherwise, whatever that value is.
\<close>

theorem process_sort_direction:
  assumes "process t raw q0 = Inr (params, query)"
  shows "params ''sort'' =
           Some (PStr (case present (lower_keys raw) ''order'' of
                         Some (PStr s) \<Rightarrow> lower s
                       | _ \<Rightarrow> (case present (lower_keys raw) ''sort'' of
                                  Some (PStr s) \<Rightarrow> lower s
                                | _ \<Rightarrow> ''desc'')))"
proof -
  from process_stages [OF assms] obtain p6 q5 p7 q7 p8 where
    same: "\<forall>k. k \<notin> {''subreddit'', ''author'', ''after'', ''before'', ''sort_type''}
                 \<longrightarrow> p6 k = lower_keys raw k" and
    size: "process_size (p6, q5) = (p7, q7)" and
    sort: "process_sort p7 = Inr p8" and
    freq: "process_frequency p8 = Inr params" and
    q: "query = set_query_sort p8 q7"
    by blast
  have "p7 ''order'' = p6 ''order''" "p7 ''sort'' = p6 ''sort''"
    using process_size_other [OF size] by simp_all
  then have ord: "p7 ''order'' = lower_keys raw ''order''" and srt: "p7 ''sort'' = lower_keys raw ''sort''"
    using same by simp_all
  have pres: "present p7 ''order'' = present (lower_keys raw) ''order''"
             "present p7 ''sort'' = present (lower_keys raw) ''sort''"
    by (simp_all add: present_def ord srt)
  have "params ''sort'' = p8 ''sort''" using process_frequency_other [OF freq] by simp
  then show ?thesis using process_sort_result [OF sort] unfolding pres by simp
qed

lemma process_order_asc:
  "process 0 [(''ORDER'', PStr ''ASC'')] empty_query =
     Inr ([''order'' \<mapsto> PStr ''ASC'', ''after'' \<mapsto> PNone, ''before'' \<mapsto> PNone,
           ''sort_type'' \<mapsto> PStr ''created_utc'', ''size'' \<mapsto> PInt 25,
           ''sort'' \<mapsto> PStr ''asc'', ''frequency'' \<mapsto> PNone],
          \<lparr>q_filter = [], q_size = Some 25, q_sort = [(''created_utc'', ''asc'')], q_aggs = []\<rparr>)"
  by (simp add: process_unfold)

theorem process_sort_direction_witness:
  "process 0 [(''ORDER'', PStr ''ASC'')] empty_query =
     Inr ([''order'' \<mapsto> PStr ''ASC'', ''after'' \<mapsto> PNone, ''before'' \<mapsto> PNone,
           ''sort_type'' \<mapsto> PStr ''created_utc'', ''size'' \<mapsto> PInt 25,
           ''sort'' \<mapsto> PStr ''asc'', ''frequency'' \<mapsto> PNone],
          \<lparr>q_filter = [], q_size = Some 25, q_sort = [(''created_utc'', ''asc'')], q_aggs = []\<rparr>)
   \<and> (case present (lower_keys [(''ORDER'', PStr ''ASC'')]) ''order'' of
         Some (PStr s) \<Rightarrow> lower s
       | _ \<Rightarrow> (case present (lower_keys [(''ORDER'', PStr ''ASC'')]) ''sort'' of
                  Some (PStr s) \<Rightarrow> lower s
                | _ \<Rightarrow> ''desc'')) = ''asc''"
  using process_order_asc process_sort_direction [OF process_order_asc] by simp

theorem process_sort_direction_counterexample:
  "(case process 0 [(''sort'', PStr ''Banana'')] empty_query of
      Inr (params, query) \<Rightarrow>
        params ''sort'' = Some (PStr ''banana'') \<and> ''banana'' \<noteq> ''asc'' \<and> ''banana'' \<noteq> ''desc''
    | Inl e \<Rightarrow> False)"
  by (simp add: process_unfold)

section \<open>Malformed time parameters\<close>

lemma parse_time_value_malformed:
  "malformed_time s \<Longrightarrow> parse_time_value t (PStr s) = Inl ValueError"
  by (auto simp: malformed_time_def parse_time_value_def Let_def split: option.splits)

lemma process_time_bound_malformed:
  assumes "p k = Some (PStr s)" and "malformed_time s"
  shows "process_time_bound t k b (p, q) = Inl ValueError"
  using assms by (simp add: process_time_bound_def present_def parse_time_value_malformed)

lemma process_time_range_malformed:
  assumes "k = ''after'' \<or> k = ''before''" and "p k = Some (PStr s)" and "malformed_time s"
  shows "\<exists>e. process_time_range t (p, q) = Inl e"
proof (cases "process_time_bound t ''after'' RangeGt (p, q)")
  case (Inl e)
  then show ?thesis by (simp add: process_time_range_def)
next
  case (Inr pq1)
  obtain p1 q1 where pq1: "pq1 = (p1, q1)" by (cases pq1)
  from assms(1) show ?thesis
  proof
    assume "k = ''after''"
    with Inr process_time_bound_malformed [of p k s t RangeGt q] assms(2,3) show ?thesis by simp
  next
    assume k: "k = ''before''"
    have "p1 ''before'' = p ''before''"
      using process_time_bound_other [of t "''after''" RangeGt p q p1 q1 "''before''"] Inr pq1 by simp
    then have "p1 ''before'' = Some (PStr s)" using assms(2) k by simp
    with process_time_bound_malformed [of p1 "''before''" s t RangeLt q1] assms(3) Inr pq1
    show ?thesis by (simp add: process_time_range_def)
  qed
qed

lemma process_malformed_time:
  assumes "k = ''after'' \<or> k = ''before''" and "lower_keys raw k = Some (PStr s)"
    and "malformed_time s"
  shows "\<exists>e. process t raw q0 = Inl e"
proof (cases "process_each process_terms [''subreddit'', ''author''] (lower_keys raw, q0)")
  case (Inl e)
  then show ?thesis by (simp add: process_def)
next
  case (Inr pq1)
  obtain p1 q1 where pq1: "pq1 = (p1, q1)" by (cases pq1)
  have "k \<notin> set [''subreddit'', ''author'']" using assms(1) by auto
  then have "p1 k = lower_keys raw k"
    using process_each_terms_other [of "[''subreddit'', ''author'']" "lower_keys raw" q0 p1 q1 k]
      Inr pq1 by simp
  then have "p1 k = Some (PStr s)" using assms(2) by simp
  with process_time_range_malformed [of k p1 s t q1] assms(1,3)
  obtain e where "process_time_range t (p1, q1) = Inl e" by blast
  then show ?thesis using Inr pq1 by (simp add: process_def)
qed

text \<open>
  C4, as the code has it: when \<open>after\<close> or \<open>before\<close> is a string that is neither an epoch
  integer nor an integer followed by one of the units \<open>s\<close>, \<open>m\<close>, \<open>h\<close>, \<open>d\<close>, the exception of
  \<open>_parse_time_value\<close> is caught by \<open>on_get\<close> only: a search request (one without \<open>ids\<close>)
  is answered with status 500 and the error envelope, and no query is sent to the backend.
\<close>

theorem malformed_time_fails_request:
  assumes "map_of raw ''ids'' = None"
    and "k = ''after'' \<or> k = ''before''"
    and "lower_keys raw k = Some (PStr s)"
    and "malformed_time s"
  shows "\<exists>e. on_get env raw sent = (Error500 e, sent)"
proof -
  let ?q0 = "\<lparr>q_filter = (case map_of raw ''q'' of
                               None \<Rightarrow> []
                             | Some PNone \<Rightarrow> []
                             | Some v \<Rightarrow> [SimpleQueryString v (Some [''body''])]),
                q_size = None, q_sort = [], q_aggs = []\<rparr>"
  from process_malformed_time [OF assms(2,3,4)]
  obtain e where e: "process (now env) raw ?q0 = Inl e" by blast
  have "search env raw (es_primary env @ comment_es_index) sent = (Inl e, sent)"
    by (simp add: search_def e)
  then have "do_elasticsearch env raw sent = (Inl e, sent)"
    by (simp add: do_elasticsearch_def)
  then have "on_get env raw sent = (Error500 e, sent)"
    using assms(1) by (simp add: on_get_def)
  then show ?thesis by blast
qed


lemma malformed_abc: "malformed_time ''abc''"
  by (simp add: malformed_time_def int_of_string_def strip_int_def int_space_def digit_val_def)

lemma on_get_after_abc:
  "on_get (sample_env net_up) [(''subreddit'', PStr ''python''), (''after'', PStr ''abc'')] []
     = (Error500 ValueError, [])"
  by (simp add: on_get_def do_elasticsearch_def search_def sample_env_def process_def
      process_terms_def present_def process_time_range_def process_time_bound_def
      parse_time_value_def lower_keys_def lower_def lower_char_def
      int_of_string_def strip_int_def int_space_def digit_val_def)

theorem malformed_time_fails_request_witness:
  "map_of [(''subreddit'', PStr ''python''), (''after'', PStr ''abc'')] ''ids'' = None
   \<and> lower_keys [(''subreddit'', PStr ''python''), (''after'', PStr ''abc'')] ''after''
       = Some (PStr ''abc'')
   \<and> malformed_time ''abc''
   \<and> on_get (sample_env net_up) [(''subreddit'', PStr ''python''), (''after'', PStr ''abc'')] []
       = (Error500 ValueError, [])"
proof -
  have ids: "map_of [(''subreddit'', PStr ''python''), (''after'', PStr ''abc'')] ''ids'' = None"
    by simp
  have k: "''after'' = ''after'' \<or> ''after'' = ''before''" by simp
  have v: "lower_keys [(''subreddit'', PStr ''python''), (''after'', PStr ''abc'')] ''after''
             = Some (PStr ''abc'')"
    by (simp add: lower_keys_def lower_def lower_char_def)
  from malformed_time_fails_request [OF ids k v malformed_abc, of "sample_env net_up" "[]"]
  obtain e where "on_get (sample_env net_up)
      [(''subreddit'', PStr ''python''), (''after'', PStr ''abc'')] [] = (Error500 e, [])"
    by blast
  then show ?thesis using ids v malformed_abc on_get_after_abc by simp
qed

theorem malformed_time_counterexample:
  "on_get (sample_env net_up) [(''subreddit'', PStr ''python''), (''before'', PStr ''5x'')] []
     = (Error500 ValueError, [])"
  by (simp add: on_get_def do_elasticsearch_def search_def sample_env_def process_def
      process_terms_def present_def process_time_range_def process_time_bound_def
      parse_time_value_def lower_keys_def lower_def lower_char_def
      int_of_string_def strip_int_def int_space_def digit_val_def)

section \<open>The subreddit aggregation\<close>













section \<open>Comment records and the link_id aggregation at concrete inputs\<close>

lemmas codec_unfold =
  base36encode_def alphabet_def encode_field_def getitem_def int_of_jval_def
  int_of_string_def int_max_str_digits_def strip_int_def int_space_def digit_val_def

text \<open>
  C5 at a record whose \<open>parent_id\<close> equals its \<open>link_id\<close>: the search path gives the
  \<open>parent_id\<close> the prefix \<open>t1_\<close>, the retrieval by id gives the same record the prefix
  \<open>t3_\<close>; \<open>link_id\<close> has the prefix \<open>t3_\<close> on both paths.
\<close>

theorem parent_id_equal_to_link_id:
  "format_hit (sample_env net_up) Map.empty
     \<lparr>hit_id = JStr ''5'',
      hit_source = [(''link_id'', JInt 10), (''parent_id'', JInt 10), (''subreddit_id'', JInt 1)]\<rparr>
   = Inr (Map.empty,
          [(''link_id'', JStr ''t3_a''), (''parent_id'', JStr ''t1_a''),
           (''subreddit_id'', JStr ''t5_1''), (''id'', JStr ''5''),
           (''author_flair_text'', JNull), (''author_flair_css_class'', JNull)])
   \<and> format_row
        [(''id'', JInt 5), (''link_id'', JInt 10), (''parent_id'', JInt 10), (''subreddit_id'', JInt 1)]
   = Inr [(''id'', JStr ''5''), (''link_id'', JStr ''t3_a''), (''parent_id'', JStr ''t3_a''),
          (''subreddit_id'', JStr ''t5_1'')]"
  by (simp add: format_hit_def format_row_def codec_unfold unescape_field_def
      apply_field_filter_def present_def sample_env_def)

lemmas request_unfold =
  on_get_def do_elasticsearch_def search_def add_aggregations_def process_aggregations_def
  opt_buckets_def link_id_buckets_def rescore_if_present_def get_submissions_from_es_def
  CommentSearch_execute_search_def execute_search_def get_and_raise_for_status_def
  http_get_def json_loads_def comment_es_index_def
  looks_like_int_def str_of_jval_def
  sample_env_def net_up_def net_lookup_down_def sample_comments_def sample_submissions_def
  sample_bucket_def empty_metadata_def
  process_def process_terms_def present_def process_time_range_def process_time_bound_def
  process_score_filter_def process_comment_count_filter_def process_number_filter_def
  process_boolean_filters_def process_boolean_filter_def process_sort_type_def process_size_def
  process_sort_def process_frequency_def set_query_sort_def lower_pval_def parse_time_value_def
  lower_keys_def lower_def lower_char_def int_of_pval_def Let_def

lemma link_id_buckets_after_None:
  assumes "params ''after'' = Some PNone"
  shows "\<exists>e sent'. link_id_buckets env params buckets sent = (Inl e, sent')"
proof (cases "map_err (rescore_if_present env) buckets")
  case (Inl e)
  then show ?thesis by (simp add: link_id_buckets_def)
next
  case (Inr bs)
  obtain r sent1 where g: "get_submissions_from_es env (map b_key bs) sent = (r, sent1)"
    by (cases "get_submissions_from_es env (map b_key bs) sent")
  show ?thesis
    using Inr g assms by (cases r) (simp_all add: link_id_buckets_def int_of_pval_def)
qed

lemma process_after_absent:
  assumes "process t raw q0 = Inr (params, query)" and "present (lower_keys raw) ''after'' = None"
  shows "params ''after'' = Some PNone"
proof -
  from assms(1) obtain p1 q1 where
    s1: "process_each process_terms [''subreddit'', ''author''] (lower_keys raw, q0) = Inr (p1, q1)"
    by (auto simp: process_def split: sum.splits)
  from assms(1) s1 obtain p2 q2 where
    s2: "process_time_range t (p1, q1) = Inr (p2, q2)"
    by (auto simp: process_def split: sum.splits)
  from s2 obtain pa qa where
    a: "process_time_bound t ''after'' RangeGt (p1, q1) = Inr (pa, qa)" and
    b: "process_time_bound t ''before'' RangeLt (pa, qa) = Inr (p2, q2)"
    by (auto simp: process_time_range_def split: sum.splits)
  have "p1 ''after'' = lower_keys raw ''after''"
    using process_each_terms_other [OF s1] by simp
  then have "present p1 ''after'' = None" using assms(2) by (simp add: present_def)
  then have "pa ''after'' = Some PNone"
    using a by (auto simp: process_time_bound_def)
  then have p2: "p2 ''after'' = Some PNone"
    using process_time_bound_other [OF b, of "''after''"] by simp
  from assms(1) s1 s2 obtain p3 q3 where
    s3: "process_score_filter (p2, q2) = Inr (p3, q3)"
    by (auto simp: process_def split: sum.splits)
  from assms(1) s1 s2 s3 obtain p4 q4 where
    s4: "process_comment_count_filter (p3, q3) = Inr (p4, q4)"
    by (auto simp: process_def split: sum.splits)
  from assms(1) s1 s2 s3 s4 obtain p5 q5' where
    s5: "process_boolean_filters (p4, q4) = Inr (p5, q5')"
    by (auto simp: process_def split: sum.splits)
  from assms(1) s1 s2 s3 s4 s5 obtain p6' where
    s6: "process_sort_type p5 = Inr p6'"
    by (auto simp: process_def split: sum.splits)
  obtain p7' q7' where s7: "process_size (p6', q5') = (p7', q7')"
    by (cases "process_size (p6', q5')")
  from assms(1) s1 s2 s3 s4 s5 s6 s7 obtain p8' where
    s8: "process_sort p7' = Inr p8'"
    by (auto simp: process_def split: sum.splits)
  from assms(1) s1 s2 s3 s4 s5 s6 s7 s8 have
    s9: "process_frequency p8' = Inr params"
    by (auto simp: process_def split: sum.splits)
  have "p3 = p2"
    using s3 unfolding process_score_filter_def by (rule process_number_filter_params)
  moreover have "p4 = p3"
    using s4 unfolding process_comment_count_filter_def by (rule process_number_filter_params)
  moreover have "p5 = p4"
    using s5 unfolding process_boolean_filters_def by (rule process_each_boolean_params)
  ultimately have "p5 ''after'' = Some PNone" using p2 by simp
  then have "p6' ''after'' = Some PNone" using process_sort_type_other [OF s6] by simp
  then have "p7' ''after'' = Some PNone" using process_size_other [OF s7] by simp
  then have "p8' ''after'' = Some PNone" using process_sort_other [OF s8] by simp
  then show ?thesis using process_frequency_other [OF s9] by simp
qed

lemma add_aggregation_loop_other:
  "add_aggregation_loop m aggs (p, q) = Inr (p', q') \<Longrightarrow> k \<noteq> ''frequency'' \<Longrightarrow> p' k = p k"
proof (induction aggs arbitrary: p q)
  case Nil
  then show ?case by simp
next
  case (Cons agg aggs)
  from Cons.prems(1) obtain p1 q1 where
    rest: "add_aggregation_loop m aggs (p1, q1) = Inr (p', q')" and
    p1: "p1 = p \<or> (\<exists>f. p1 = p(''frequency'' \<mapsto> f))"
    by (auto simp: Let_def split: if_splits option.splits)
  have "p' k = p1 k" using Cons.IH [OF rest Cons.prems(2)] .
  also have "p1 k = p k" using p1 Cons.prems(2) by auto
  finally show ?case .
qed

lemma add_aggregations_other:
  assumes "add_aggregations (p, q) = Inr (p', q')" and "k \<noteq> ''frequency''" and "k \<noteq> ''aggs''"
  shows "p' k = p k"
proof -
  consider (same) "p' = p"
    | (loop) m xs p0 where "add_aggregation_loop m xs (p0, q) = Inr (p', q')"
        and "p0 = p \<or> (\<exists>v. p0 = p(''aggs'' \<mapsto> v))"
    using assms(1)
    by (simp add: add_aggregations_def del: add_aggregation_loop.simps
             split: option.splits pval.splits if_splits) blast+
  then show ?thesis
  proof cases
    case same
    then show ?thesis by simp
  next
    case loop
    have "p' k = p0 k" using add_aggregation_loop_other [OF loop(1) assms(2)] .
    also have "p0 k = p k" using loop(2) assms(3) by auto
    finally show ?thesis .
  qed
qed

lemma apply_field_filter_other:
  "apply_field_filter p src = Inr (p', src') \<Longrightarrow> k \<noteq> ''fields'' \<Longrightarrow> p' k = p k"
  by (auto simp: apply_field_filter_def split: option.splits pval.splits)

lemma and_then_Inr: "and_then m f = Inr y \<Longrightarrow> \<exists>x. m = Inr x \<and> f x = Inr y"
  by (cases m) simp_all

lemma format_hit_other:
  assumes "format_hit env p h = Inr (p', src)" and "k \<noteq> ''fields''"
  shows "p' k = p k"
proof -
  from assms(1) obtain src0 where "apply_field_filter p src0 = Inr (p', src)"
    unfolding format_hit_def Let_def by (auto dest!: and_then_Inr)
  then show ?thesis using assms(2) by (rule apply_field_filter_other)
qed

lemma format_hits_other:
  "format_hits env p hs = Inr (p', srcs) \<Longrightarrow> k \<noteq> ''fields'' \<Longrightarrow> p' k = p k"
proof (induction hs arbitrary: p srcs)
  case Nil
  then show ?case by simp
next
  case (Cons h hs)
  from Cons.prems(1) obtain p1 src srcs1 where
    h: "format_hit env p h = Inr (p1, src)" and
    rest: "format_hits env p1 hs = Inr (p', srcs1)"
    by (auto dest!: and_then_Inr)
  show ?case
    using Cons.IH [OF rest Cons.prems(2)] format_hit_other [OF h Cons.prems(2)] by simp
qed

lemma process_aggregations_after_None:
  assumes "params ''after'' = Some PNone" and "agg_link_id aggs = Some buckets"
  shows "\<exists>e sent'. process_aggregations env params aggs sent = (Inl e, sent')"
proof -
  from link_id_buckets_after_None [of params env buckets sent] assms(1) obtain e sent' where
    "link_id_buckets env params buckets sent = (Inl e, sent')" by blast
  then show ?thesis
    using assms(2) by (auto simp: process_aggregations_def split: sum.splits)
qed

text \<open>
  C6 when the request has no \<open>after\<close>: \<open>process\<close> stores \<open>None\<close> under the key
  \<open>after\<close>, so the test \<open>"after" in self.params\<close> succeeds and \<open>int(None)\<close> raises.
  Every search request without \<open>after\<close> whose response has a \<open>link_id\<close> aggregation is
  answered with status 500; the default 0 is never used.
\<close>

theorem link_id_without_after_fails:
  assumes "map_of raw ''ids'' = None" and "present (lower_keys raw) ''after'' = None"
    and "search env raw (es_primary env @ comment_es_index) sent
           = (Inr (response, md, params), sent1)"
    and "aggregations response = Some aggs" and "agg_link_id aggs = Some buckets"
  shows "\<exists>e sent'. on_get env raw sent = (Error500 e, sent')"
proof -
  from assms(3) obtain q0 p0 q1 q where
    p: "process (now env) raw q0 = Inr (p0, q1)" and
    a: "add_aggregations (p0, q1) = Inr (params, q)"
    unfolding search_def Let_def
    by (auto dest!: and_then_Inr split: sum.splits prod.splits)
  have "p0 ''after'' = Some PNone" using process_after_absent [OF p assms(2)] .
  then have after: "params ''after'' = Some PNone"
    using add_aggregations_other [OF a, of "''after''"] by simp
  show ?thesis
  proof (cases "format_hits env params (hits response)")
    case (Inl e)
    then show ?thesis using assms(1,3) by (simp add: on_get_def do_elasticsearch_def)
  next
    case (Inr r)
    obtain params1 results where r: "r = (params1, results)" by (cases r)
    have "params1 ''after'' = Some PNone"
      using format_hits_other [of env params "hits response" params1 results "''after''"]
        Inr r after by simp
    with process_aggregations_after_None [of params1 aggs buckets env sent1] assms(5)
    obtain e sent' where
      "process_aggregations env params1 aggs sent1 = (Inl e, sent')" by blast
    then show ?thesis
      using assms(1,3,4) Inr r by (simp add: on_get_def do_elasticsearch_def)
  qed
qed

lemma search_link_id_example:
  "\<exists>md params sent1.
     search (sample_env net_up) [(''aggs'', PStr ''link_id'')]
       (es_primary (sample_env net_up) @ comment_es_index) []
     = (Inr (sample_comments, md, params), sent1)"
  by (simp add: request_unfold)

theorem link_id_without_after_fails_witness:
  "fst (on_get (sample_env net_up) [(''aggs'', PStr ''link_id'')] []) = Error500 TypeError
   \<and> fst (on_get (sample_env net_up) [(''aggs'', PStr ''link_id''), (''after'', PStr ''0'')] [])
       = Ok200 \<lparr>r_aggs = Some \<lparr>agg_subreddit = None, agg_author = None, agg_created_utc = None,
                   agg_link_id = Some [sample_bucket\<lparr>data := Some
                     [(''id'', JStr ''a''), (''created_utc'', JInt 1600000000),
                      (''permalink'', JStr ''/r/python/comments/a/''),
                      (''full_link'', JStr ''https://www.reddit.com/r/python/comments/a/'')]\<rparr>]\<rparr>,
                 r_data = [],
                 r_metadata = \<lparr>md_size = Some (PInt 25), md_sort = Some (PStr ''desc''),
                   md_sort_type = Some (PStr ''created_utc''), md_after = Some (PInt 0),
                   md_results_returned = Some 0, md_timed_out = Some JNull,
                   md_total_results = Some (JInt 0), md_shards = Some JNull\<rparr>\<rparr>"
proof -
  have ids: "map_of [(''aggs'', PStr ''link_id'')] ''ids'' = None" by simp
  have absent: "present (lower_keys [(''aggs'', PStr ''link_id'')]) ''after'' = None"
    by (simp add: present_def lower_keys_def lower_def lower_char_def)
  obtain md params sent1 where
    s: "search (sample_env net_up) [(''aggs'', PStr ''link_id'')]
          (es_primary (sample_env net_up) @ comment_es_index) []
        = (Inr (sample_comments, md, params), sent1)"
    using search_link_id_example by blast
  have aggs: "aggregations sample_comments
                = Some \<lparr>agg_subreddit = None, agg_author = None, agg_created_utc = None,
                        agg_link_id = Some [sample_bucket]\<rparr>"
    by (simp add: sample_comments_def)
  from link_id_without_after_fails [OF ids absent s aggs]
  obtain e sent' where
    "on_get (sample_env net_up) [(''aggs'', PStr ''link_id'')] [] = (Error500 e, sent')"
    by auto
  moreover have "fst (on_get (sample_env net_up) [(''aggs'', PStr ''link_id'')] [])
                   = Error500 TypeError"
    by (simp add: request_unfold codec_unfold)
  moreover have "fst (on_get (sample_env net_up)
                        [(''aggs'', PStr ''link_id''), (''after'', PStr ''0'')] [])
       = Ok200 \<lparr>r_aggs = Some \<lparr>agg_subreddit = None, agg_author = None, agg_created_utc = None,
                   agg_link_id = Some [sample_bucket\<lparr>data := Some
                     [(''id'', JStr ''a''), (''created_utc'', JInt 1600000000),
                      (''permalink'', JStr ''/r/python/comments/a/''),
                      (''full_link'', JStr ''https://www.reddit.com/r/python/comments/a/'')]\<rparr>]\<rparr>,
                 r_data = [],
                 r_metadata = \<lparr>md_size = Some (PInt 25), md_sort = Some (PStr ''desc''),
                   md_sort_type = Some (PStr ''created_utc''), md_after = Some (PInt 0),
                   md_results_returned = Some 0, md_timed_out = Some JNull,
                   md_total_results = Some (JInt 0), md_shards = Some JNull\<rparr>\<rparr>"
    by (simp add: request_unfold codec_unfold)
  ultimately show ?thesis by simp
qed

lemma get_submissions_both_fail:
  assumes "\<forall>i\<in>set ids. \<forall>s. i \<noteq> JStr s"
    and "http env sent \<lparr>url = es_primary env @ ''/rs/submissions/_search'',
                          body = json_dumps env (IdsDoc ids 1000), timeout = 30\<rparr>
           = TransportFailure
         \<or> (\<exists>r. http env sent \<lparr>url = es_primary env @ ''/rs/submissions/_search'',
                                   body = json_dumps env (IdsDoc ids 1000), timeout = 30\<rparr>
                  = Answer r \<and> 400 \<le> status_code r \<and> status_code r < 600)"
    and "http env
            (sent @ [\<lparr>url = es_primary env @ ''/rs/submissions/_search'',
                      body = json_dumps env (IdsDoc ids 1000), timeout = 30\<rparr>])
            \<lparr>url = es_fallback env @ ''/rs/submissions/_search'',
             body = json_dumps env (IdsDoc ids 1000), timeout = 30\<rparr>
           = TransportFailure
         \<or> (\<exists>r. http env
                    (sent @ [\<lparr>url = es_primary env @ ''/rs/submissions/_search'',
                              body = json_dumps env (IdsDoc ids 1000), timeout = 30\<rparr>])
                    \<lparr>url = es_fallback env @ ''/rs/submissions/_search'',
                     body = json_dumps env (IdsDoc ids 1000), timeout = 30\<rparr>
                  = Answer r \<and> 400 \<le> status_code r \<and> status_code r < 600)"
  shows "fst (get_submissions_from_es env ids sent) = Inr []"
proof -
  have "map_err (\<lambda>i. case i of
                        JStr s \<Rightarrow> (case int_of_string 10 s of
                                     None \<Rightarrow> Inl ValueError | Some n \<Rightarrow> Inr (JInt n))
                      | _ \<Rightarrow> Inr i) ids = Inr ids"
    using assms(1) by (induction ids) (auto split: jval.splits)
  then show ?thesis
    by (simp add: get_submissions_from_es_def Let_def
        get_and_raise_for_status_None [OF assms(2)] get_and_raise_for_status_None [OF assms(3)])
qed

text \<open>
  C10 at a request without \<open>after\<close>, when both lookups of the submissions fail: the lookup
  returns the empty dictionary, and the request is answered with status 500 all the same
  (the \<open>TypeError\<close> of \<open>int(None)\<close>); with \<open>after=0\<close> it succeeds with an empty
  \<open>link_id\<close> list.
\<close>

theorem lookup_down_without_after:
  "fst (get_submissions_from_es (sample_env net_lookup_down) [JInt 10] []) = Inr []
   \<and> fst (on_get (sample_env net_lookup_down) [(''aggs'', PStr ''link_id'')] [])
       = Error500 TypeError
   \<and> fst (on_get (sample_env net_lookup_down)
             [(''aggs'', PStr ''link_id''), (''after'', PStr ''0'')] [])
       = Ok200 \<lparr>r_aggs = Some \<lparr>agg_subreddit = None, agg_author = None, agg_created_utc = None,
                   agg_link_id = Some []\<rparr>,
                 r_data = [],
                 r_metadata = \<lparr>md_size = Some (PInt 25), md_sort = Some (PStr ''desc''),
                   md_sort_type = Some (PStr ''created_utc''), md_after = Some (PInt 0),
                   md_results_returned = Some 0, md_timed_out = Some JNull,
                   md_total_results = Some (JInt 0), md_shards = Some JNull\<rparr>\<rparr>"
  by (simp add: request_unfold codec_unfold)

section \<open>The two paths of record normalisation, and the buckets that are kept\<close>

lemma map_of_update: "map_of (AList.update k v al) = (map_of al)(k \<mapsto> v)"
  by (rule update_conv')

lemma map_of_delete: "map_of (AList.delete k al) = (map_of al)(k := None)"
  by (rule delete_conv')

lemma format_row_prefixes:
  assumes "format_row c = Inr out"
  shows "\<exists>link l. map_of c ''link_id'' = Some link \<and> base36encode link = Inr l
           \<and> map_of out ''link_id'' = Some (JStr (''t3_'' @ l))
           \<and> (case map_of c ''parent_id'' of
                 None \<Rightarrow> map_of out ''parent_id'' = Some (JStr (''t3_'' @ l))
               | Some p \<Rightarrow>
                   if p = JNull \<or> p = link
                   then map_of out ''parent_id'' = Some (JStr (''t3_'' @ l))
                   else \<exists>e. base36encode p = Inr e
                          \<and> map_of out ''parent_id'' = Some (JStr (''t1_'' @ e)))"
proof -
  from assms obtain i where i: "encode_field c ''id'' = Inr i"
    unfolding format_row_def by (auto dest!: and_then_Inr)
  let ?c1 = "AList.update ''id'' (JStr i) c"
  have l1: "map_of ?c1 ''link_id'' = map_of c ''link_id''"
       and p1: "map_of ?c1 ''parent_id'' = map_of c ''parent_id''"
    by (simp_all add: map_of_update)
  from assms i obtain parent comment3 l where
    parent: "(case map_of ?c1 ''parent_id'' of
            None \<Rightarrow> and_then (encode_field ?c1 ''link_id'') (\<lambda>l. Inr (''t3_'' @ l))
          | Some JNull \<Rightarrow> and_then (encode_field ?c1 ''link_id'') (\<lambda>l. Inr (''t3_'' @ l))
          | Some p \<Rightarrow>
              and_then (getitem ?c1 ''link_id'') (\<lambda>link.
                if p = link
                then and_then (encode_field ?c1 ''link_id'') (\<lambda>l. Inr (''t3_'' @ l))
                else and_then (base36encode p) (\<lambda>e. Inr (''t1_'' @ e)))) = Inr parent" and
    c3: "(case map_of (AList.update ''parent_id'' (JStr parent) ?c1) ''subreddit_id'' of
            None \<Rightarrow> Inr (AList.update ''parent_id'' (JStr parent) ?c1)
          | Some sr \<Rightarrow> and_then (base36encode sr) (\<lambda>e.
              Inr (AList.update ''subreddit_id'' (JStr (''t5_'' @ e))
                     (AList.update ''parent_id'' (JStr parent) ?c1)))) = Inr comment3" and
    l: "encode_field comment3 ''link_id'' = Inr l" and
    out: "out = AList.delete ''name'' (AList.update ''link_id'' (JStr (''t3_'' @ l)) comment3)"
    unfolding format_row_def Let_def by (auto dest!: and_then_Inr)
  have c3_link: "map_of comment3 ''link_id'' = map_of c ''link_id''"
    and c3_parent: "map_of comment3 ''parent_id'' = Some (JStr parent)"
    using c3 by (auto simp: map_of_update split: option.splits dest!: and_then_Inr)
  from l obtain link where link: "map_of c ''link_id'' = Some link" "base36encode link = Inr l"
    unfolding encode_field_def getitem_def c3_link [symmetric]
    by (auto dest!: and_then_Inr split: option.splits)
  have out_link: "map_of out ''link_id'' = Some (JStr (''t3_'' @ l))"
    and out_parent: "map_of out ''parent_id'' = Some (JStr parent)"
    by (simp_all add: out map_of_update map_of_delete c3_parent)
  have "case map_of c ''parent_id'' of
                 None \<Rightarrow> parent = ''t3_'' @ l
               | Some p \<Rightarrow>
                   if p = JNull \<or> p = link then parent = ''t3_'' @ l
                   else \<exists>e. base36encode p = Inr e \<and> parent = ''t1_'' @ e"
    using parent link unfolding p1 encode_field_def getitem_def l1
    by (auto split: option.splits jval.splits if_splits dest!: and_then_Inr)
  then show ?thesis using link out_link out_parent
    by (auto split: option.splits if_splits)
qed


lemma format_hit_prefixes:
  assumes "format_hit env params h = Inr (params', out)" and "present params ''fields'' = None"
  shows "\<exists>link l. map_of (hit_source h) ''link_id'' = Some link \<and> base36encode link = Inr l
           \<and> map_of out ''link_id'' = Some (JStr (''t3_'' @ l))
           \<and> (case map_of (hit_source h) ''parent_id'' of
                 None \<Rightarrow> map_of out ''parent_id'' = Some (JStr (''t3_'' @ l))
               | Some p \<Rightarrow> \<exists>e. base36encode p = Inr e
                            \<and> map_of out ''parent_id'' = Some (JStr (''t1_'' @ e)))"
proof -
  from assms(1) obtain n i l where
    n: "int_of_jval (hit_id h) = Inr n" and i: "base36encode (JInt n) = Inr i" and
    l: "encode_field (AList.update ''id'' (JStr i) (hit_source h)) ''link_id'' = Inr l"
    unfolding format_hit_def Let_def by (auto dest!: and_then_Inr)
  let ?s2 = "AList.update ''link_id'' (JStr (''t3_'' @ l)) (AList.update ''id'' (JStr i) (hit_source h))"
  from assms(1) n i l obtain parent sr t c where
    parent: "(case map_of ?s2 ''parent_id'' of
          Some p \<Rightarrow> and_then (base36encode p) (\<lambda>e. Inr (JStr (''t1_'' @ e)))
        | None \<Rightarrow> getitem ?s2 ''link_id'') = Inr parent" and
    out0: "apply_field_filter params
            (AList.update ''author_flair_css_class'' c
              (AList.update ''author_flair_text'' t
                (AList.update ''subreddit_id'' (JStr (''t5_'' @ sr))
                  (AList.update ''parent_id'' parent ?s2)))) = Inr (params', out)"
    unfolding format_hit_def Let_def by (auto dest!: and_then_Inr)
  have out: "out = AList.update ''author_flair_css_class'' c
              (AList.update ''author_flair_text'' t
                (AList.update ''subreddit_id'' (JStr (''t5_'' @ sr))
                  (AList.update ''parent_id'' parent ?s2)))"
    using out0 assms(2) by (simp add: apply_field_filter_def)
  from l obtain link where link: "map_of (hit_source h) ''link_id'' = Some link"
      "base36encode link = Inr l"
    unfolding encode_field_def getitem_def
    by (auto simp: map_of_update dest!: and_then_Inr split: option.splits)
  have out_link: "map_of out ''link_id'' = Some (JStr (''t3_'' @ l))"
    and out_parent: "map_of out ''parent_id'' = Some parent"
    by (simp_all add: out map_of_update)
  have "case map_of (hit_source h) ''parent_id'' of
          None \<Rightarrow> parent = JStr (''t3_'' @ l)
        | Some p \<Rightarrow> \<exists>e. base36encode p = Inr e \<and> parent = JStr (''t1_'' @ e)"
    using parent
    by (auto simp: map_of_update getitem_def split: option.splits dest!: and_then_Inr)
  then show ?thesis using link out_link out_parent
    by (auto split: option.splits)
qed


text \<open>
  When the loop that builds \<open>newlist\<close> returns, it has kept exactly the buckets that
  satisfy its condition, in their order, each with the submission and its \<open>full_link\<close> as
  \<open>data\<close>.
\<close>

lemma link_id_newlist_kept:
  "link_id_newlist submission_data after buckets = Inr out \<Longrightarrow>
     map (\<lambda>b. b\<lparr>data := None\<rparr>) out
       = map (\<lambda>b. b\<lparr>data := None\<rparr>) (filter (kept submission_data after) buckets)
   \<and> (\<forall>b\<in>set out. \<exists>sub p. map_of submission_data (b_key b) = Some sub
          \<and> map_of sub ''permalink'' = Some p
          \<and> data b = Some (AList.update ''full_link''
                              (JStr (''https://www.reddit.com'' @ str_of_jval p)) sub))"
proof (induction buckets arbitrary: out)
  case Nil
  then show ?case by simp
next
  case (Cons item items)
  show ?case
  proof (cases "kept submission_data after item")
    case False
    then have "link_id_newlist submission_data after items = Inr out"
      using Cons.prems
      by (auto simp: kept_def getitem_def split: option.splits jval.splits if_splits
               dest!: and_then_Inr)
    from Cons.IH [OF this] False show ?thesis by simp
  next
    case True
    then obtain sub created p rest where
      sub: "map_of submission_data (b_key item) = Some sub"
        "map_of sub ''permalink'' = Some p" and
      rest: "link_id_newlist submission_data after items = Inr rest" and
      out: "out = item\<lparr>data := Some (AList.update ''full_link''
                     (JStr (''https://www.reddit.com'' @ str_of_jval p)) sub)\<rparr> # rest"
      using Cons.prems
      by (auto simp: kept_def getitem_def split: option.splits jval.splits if_splits
               dest!: and_then_Inr)
    from Cons.IH [OF rest] True sub show ?thesis by (simp add: out)
  qed
qed

end
